theory Spec2Isabelle
  imports Main "HOL-Library.Word" "HOL-Library.Sublist"
begin

section \<open>Parse errors and their diagnostics\<close>

text \<open>
  The enumeration \<^verbatim>\<open>SmolRTSP_ParseType\<close> is declared in \<^verbatim>\<open>smolrtsp/error.h\<close>.
  \<^verbatim>\<open>SmolRTSP_ParseType_str\<close> names three of its values and sends every other value to
  its \<^verbatim>\<open>default\<close> branch; the last constructor stands for those.
\<close>

datatype SmolRTSP_ParseType =
    SmolRTSP_ParseType_Int
  | SmolRTSP_ParseType_Ident
  | SmolRTSP_ParseType_HeaderName
  | SmolRTSP_ParseType_unlisted

fun SmolRTSP_ParseType_str :: "SmolRTSP_ParseType \<Rightarrow> string" where
  "SmolRTSP_ParseType_str SmolRTSP_ParseType_Int = ''Integer''"
| "SmolRTSP_ParseType_str SmolRTSP_ParseType_Ident = ''Identifier''"
| "SmolRTSP_ParseType_str SmolRTSP_ParseType_HeaderName = ''Header name''"
| "SmolRTSP_ParseType_str _ = ''Unknown''"

text \<open>
  The sum type \<^verbatim>\<open>SmolRTSP_ParseError\<close>: the four variants that
  \<^verbatim>\<open>SmolRTSP_ParseError_print\<close> matches on, each with the slices it binds.
\<close>

datatype SmolRTSP_ParseError =
    SmolRTSP_ParseError_ContentLength string
  | SmolRTSP_ParseError_StrMismatch string string
  | SmolRTSP_ParseError_TypeMismatch SmolRTSP_ParseType string
  | SmolRTSP_ParseError_HeaderMapOverflow

text \<open>
  A writer \<^verbatim>\<open>w\<close> receives one slice and its context \<^verbatim>\<open>w_ctx\<close>; what it does to
  the context is the new context.
\<close>

type_synonym 'ctx SmolRTSP_Writer = "string \<Rightarrow> 'ctx \<Rightarrow> 'ctx"

text \<open>
  Modelled from the spec: the macro \<^verbatim>\<open>SMOLRTSP_WRITE_SLICES\<close> is not among the sources.
  It is given a writer, its context and an array of slices, and the diagnostics of
  section 3 are the slices written one after the other; so it hands the slices to the
  writer in the order of the array.
\<close>

definition SMOLRTSP_WRITE_SLICES :: "'ctx SmolRTSP_Writer \<Rightarrow> 'ctx \<Rightarrow> string list \<Rightarrow> 'ctx" where
  "SMOLRTSP_WRITE_SLICES w w_ctx slices = fold w slices w_ctx"

fun SmolRTSP_ParseError_print :: "SmolRTSP_ParseError \<Rightarrow> 'ctx SmolRTSP_Writer \<Rightarrow> 'ctx \<Rightarrow> 'ctx" where
  "SmolRTSP_ParseError_print (SmolRTSP_ParseError_ContentLength v) w w_ctx =
     SMOLRTSP_WRITE_SLICES w w_ctx [''Invalid Content-Length `'', v, ''`.'']"
| "SmolRTSP_ParseError_print (SmolRTSP_ParseError_StrMismatch expected actual) w w_ctx =
     SMOLRTSP_WRITE_SLICES w w_ctx
       [''String mismatch: expected `'', expected, ''`, found `'', actual, ''`.'']"
| "SmolRTSP_ParseError_print (SmolRTSP_ParseError_TypeMismatch kind str) w w_ctx =
     SMOLRTSP_WRITE_SLICES w w_ctx
       [''Type mismatch: expected '', SmolRTSP_ParseType_str kind, '', found `'', str, ''`.'']"
| "SmolRTSP_ParseError_print SmolRTSP_ParseError_HeaderMapOverflow w w_ctx =
     w ''Not enough space left in the header map.'' w_ctx"

text \<open>
  A writer into a character buffer: the context is what has been written so far, and a
  slice is appended to it.
\<close>

definition buffer_writer :: "string SmolRTSP_Writer" where
  "buffer_writer s written = written @ s"

section \<open>The request parser\<close>

subsection \<open>Results, the request and the deserializers\<close>

text \<open>
  Modelled from the spec: the enumeration \<^verbatim>\<open>SmolRTSP_ParseRequestResult\<close> is declared in
  \<^verbatim>\<open>smolrtsp/request_parser.h\<close>, which is not among the sources. Section 4.2 lists its
  values "in strict order": the four intermediate states, then \<^verbatim>\<open>Ok\<close> and \<^verbatim>\<open>Err\<close>.
  \<open>enum_value\<close> is the integer of a state, by which the parser indexes its table.
\<close>

datatype SmolRTSP_ParseRequestResult =
    SmolRTSP_ParseRequestResultNothingParsed
  | SmolRTSP_ParseRequestResultMethodParsed
  | SmolRTSP_ParseRequestResultRequestURIParsed
  | SmolRTSP_ParseRequestResultRTSPVersionParsed
  | SmolRTSP_ParseRequestResultHeaderMapParsed
  | SmolRTSP_ParseRequestResultOk
  | SmolRTSP_ParseRequestResultErr

fun enum_value :: "SmolRTSP_ParseRequestResult \<Rightarrow> nat" where
  "enum_value SmolRTSP_ParseRequestResultNothingParsed = 0"
| "enum_value SmolRTSP_ParseRequestResultMethodParsed = 1"
| "enum_value SmolRTSP_ParseRequestResultRequestURIParsed = 2"
| "enum_value SmolRTSP_ParseRequestResultRTSPVersionParsed = 3"
| "enum_value SmolRTSP_ParseRequestResultHeaderMapParsed = 4"
| "enum_value SmolRTSP_ParseRequestResultOk = 5"
| "enum_value SmolRTSP_ParseRequestResultErr = 6"

text \<open>The three results the \<^verbatim>\<open>switch\<close> of the parse loop tells apart.\<close>

datatype SmolRTSP_DeserializeResult =
    SmolRTSP_DeserializeResultOk
  | SmolRTSP_DeserializeResultErr
  | SmolRTSP_DeserializeResultNeedMore

text \<open>
  The request: \<^verbatim>\<open>request->start_line.method\<close>, \<^verbatim>\<open>.uri\<close>, \<^verbatim>\<open>.version\<close> and
  \<^verbatim>\<open>request->header_map\<close>. The types of the four fields are declared in headers that are
  not among the sources; they are type parameters here.
\<close>

record ('m, 'u, 'v) SmolRTSP_RequestLine =
  "method" :: 'm
  uri :: 'u
  version :: 'v

record ('m, 'u, 'v, 'h) SmolRTSP_Request =
  start_line :: "('m, 'u, 'v) SmolRTSP_RequestLine"
  header_map :: 'h

text \<open>
  \<^verbatim>\<open>size_t\<close> is a 64-bit word. A deserializer is called with its destination
  \<^verbatim>\<open>self\<close>, the size of the window and the bytes at the cursor; it answers with its
  result, the number it stored in \<^verbatim>\<open>*bytes_read\<close> and the new contents of its
  destination. The four deserializers are defined in files that are not among the
  sources: they are a parameter of the parser.
\<close>

type_synonym size_t = "64 word"

type_synonym 'e Deserializer =
  "'e \<Rightarrow> size_t \<Rightarrow> string \<Rightarrow> SmolRTSP_DeserializeResult \<times> size_t \<times> 'e"

record ('m, 'u, 'v, 'h) deserializers =
  SmolRTSP_Method_deserialize :: "'m Deserializer"
  SmolRTSP_RequestURI_deserialize :: "'u Deserializer"
  SmolRTSP_RTSPVersion_deserialize :: "'v Deserializer"
  SmolRTSP_HeaderMap_deserialize :: "'h Deserializer"

subsection \<open>The parser object\<close>

text \<open>
  \<^verbatim>\<open>struct SmolRTSP_RequestParser\<close>. The cursor is a pointer into the caller's buffer:
  \<open>None\<close> is \<^verbatim>\<open>NULL\<close>, \<open>Some bs\<close> points at the bytes \<open>bs\<close> that lie from the cursor
  to the end of the buffer.
\<close>

record SmolRTSP_RequestParser =
  state :: SmolRTSP_ParseRequestResult
  cursor :: "string option"

text \<open>\<^verbatim>\<open>SmolRTSP_RequestParser_new\<close>: \<^verbatim>\<open>NULL\<close> when \<^verbatim>\<open>malloc\<close> fails.\<close>

definition SmolRTSP_RequestParser_new :: "bool \<Rightarrow> SmolRTSP_RequestParser option" where
  "SmolRTSP_RequestParser_new malloc_ok =
     (if \<not> malloc_ok then None
      else Some \<lparr>state = SmolRTSP_ParseRequestResultNothingParsed, cursor = None\<rparr>)"

subsection \<open>The transition table\<close>

text \<open>
  An entry of the table. In C it holds a function pointer, the address \<^verbatim>\<open>entity\<close> of the
  field of the request that the function fills, and the next state. The first two are
  one field here: the deserializer already applied to its field of the request, or
  \<open>None\<close> for a null function pointer.
\<close>

type_synonym ('m, 'u, 'v, 'h) bound_deserializer =
  "('m, 'u, 'v, 'h) SmolRTSP_Request \<Rightarrow> size_t \<Rightarrow> string \<Rightarrow>
     SmolRTSP_DeserializeResult \<times> size_t \<times> ('m, 'u, 'v, 'h) SmolRTSP_Request"

record ('m, 'u, 'v, 'h) FSMTransition =
  deserializer :: "('m, 'u, 'v, 'h) bound_deserializer option"
  next_state_if_ok :: SmolRTSP_ParseRequestResult

text \<open>
  The macro \<^verbatim>\<open>ASSOC(state, type, entity)\<close> builds the entry of \<^verbatim>\<open>state\<close>: the deserializer
  of \<^verbatim>\<open>type\<close> on \<^verbatim>\<open>entity\<close> (given by how the field is read and written), and the next
  state \<^verbatim>\<open>type##Parsed\<close>.
\<close>

definition ASSOC ::
  "'e Deserializer \<Rightarrow> (('m, 'u, 'v, 'h) SmolRTSP_Request \<Rightarrow> 'e) \<Rightarrow>
   ('e \<Rightarrow> ('m, 'u, 'v, 'h) SmolRTSP_Request \<Rightarrow> ('m, 'u, 'v, 'h) SmolRTSP_Request) \<Rightarrow>
   SmolRTSP_ParseRequestResult \<Rightarrow> ('m, 'u, 'v, 'h) FSMTransition" where
  "ASSOC deserialize read_entity write_entity type_parsed =
     \<lparr>deserializer = Some (\<lambda>request sz data.
        case deserialize (read_entity request) sz data of
          (res, bytes_read, e) \<Rightarrow> (res, bytes_read, write_entity e request)),
      next_state_if_ok = type_parsed\<rparr>"

text \<open>
  An entry that no designated initializer names is zero-initialized: a null function
  pointer, and the state whose integer is 0.
\<close>

definition zero_FSMTransition :: "('m, 'u, 'v, 'h) FSMTransition" where
  "zero_FSMTransition =
     \<lparr>deserializer = None, next_state_if_ok = SmolRTSP_ParseRequestResultNothingParsed\<rparr>"

text \<open>
  \<^verbatim>\<open>transition_table\<close>: four designated initializers, at the indices 0, 1, 2 and 4. The
  array has five elements; the one at index 3 (\<^verbatim>\<open>RTSPVersionParsed\<close>) is not named.
\<close>

definition transition_table ::
  "('m, 'u, 'v, 'h) deserializers \<Rightarrow> ('m, 'u, 'v, 'h) FSMTransition list" where
  "transition_table ds =
     [ASSOC (SmolRTSP_Method_deserialize ds) (\<lambda>r. method (start_line r))
        (\<lambda>e r. r\<lparr>start_line := (start_line r)\<lparr>method := e\<rparr>\<rparr>)
        SmolRTSP_ParseRequestResultMethodParsed,
      ASSOC (SmolRTSP_RequestURI_deserialize ds) (\<lambda>r. uri (start_line r))
        (\<lambda>e r. r\<lparr>start_line := (start_line r)\<lparr>uri := e\<rparr>\<rparr>)
        SmolRTSP_ParseRequestResultRequestURIParsed,
      ASSOC (SmolRTSP_RTSPVersion_deserialize ds) (\<lambda>r. version (start_line r))
        (\<lambda>e r. r\<lparr>start_line := (start_line r)\<lparr>version := e\<rparr>\<rparr>)
        SmolRTSP_ParseRequestResultRTSPVersionParsed,
      zero_FSMTransition,
      ASSOC (SmolRTSP_HeaderMap_deserialize ds) header_map
        (\<lambda>e r. r\<lparr>header_map := e\<rparr>)
        SmolRTSP_ParseRequestResultHeaderMapParsed]"

subsection \<open>Parsing\<close>

text \<open>
  What a call of the parser does: it returns, with the parser and the request as it
  leaves them (the value returned is the state of the parser), or it calls through a
  null function pointer. A call that never returns has no outcome (\<open>None\<close> below).
\<close>

datatype ('m, 'u, 'v, 'h) parse_outcome =
    Returned SmolRTSP_RequestParser "('m, 'u, 'v, 'h) SmolRTSP_Request"
  | Null_deserializer_call

text \<open>The bytes at the cursor, and \<^verbatim>\<open>parser->cursor += bytes_read\<close>.\<close>

definition at_cursor :: "SmolRTSP_RequestParser \<Rightarrow> string" where
  "at_cursor parser = (case cursor parser of None \<Rightarrow> [] | Some bs \<Rightarrow> bs)"

definition advance_cursor :: "size_t \<Rightarrow> SmolRTSP_RequestParser \<Rightarrow> SmolRTSP_RequestParser" where
  "advance_cursor bytes_read parser =
     parser\<lparr>cursor := map_option (drop (unat bytes_read)) (cursor parser)\<rparr>"

text \<open>
  The \<^verbatim>\<open>while (true)\<close> loop. \<^verbatim>\<open>transition\<close> is read from the table once, before the loop,
  and the loop never assigns it. (\<open>sz\<close> is the C variable \<^verbatim>\<open>size\<close>.)
\<close>

partial_function (option) parse_loop ::
  "('m, 'u, 'v, 'h) FSMTransition \<Rightarrow> SmolRTSP_RequestParser \<Rightarrow>
   ('m, 'u, 'v, 'h) SmolRTSP_Request \<Rightarrow> size_t \<Rightarrow> ('m, 'u, 'v, 'h) parse_outcome option" where
  "parse_loop transition parser request sz =
     (case deserializer transition of
        None \<Rightarrow> Some Null_deserializer_call
      | Some deserialize \<Rightarrow>
          (case deserialize request sz (at_cursor parser) of
             (res, bytes_read, request') \<Rightarrow>
               (case res of
                  SmolRTSP_DeserializeResultOk \<Rightarrow>
                    if state parser = SmolRTSP_ParseRequestResultHeaderMapParsed
                    then Some (Returned
                      ((advance_cursor bytes_read parser)\<lparr>state := SmolRTSP_ParseRequestResultOk\<rparr>)
                      request')
                    else parse_loop transition
                      ((advance_cursor bytes_read parser)\<lparr>state := next_state_if_ok transition\<rparr>)
                      request' (sz - bytes_read)
                | SmolRTSP_DeserializeResultErr \<Rightarrow>
                    Some (Returned
                      ((advance_cursor bytes_read parser)\<lparr>state := SmolRTSP_ParseRequestResultErr\<rparr>)
                      request')
                | SmolRTSP_DeserializeResultNeedMore \<Rightarrow>
                    Some (Returned (advance_cursor bytes_read parser) request'))))"

text \<open>
  \<^verbatim>\<open>SmolRTSP_RequestParser_parse\<close>. After the early return the state is not \<^verbatim>\<open>Ok\<close> or
  \<^verbatim>\<open>Err\<close>, so the index is below 5, inside the array.
\<close>

definition SmolRTSP_RequestParser_parse ::
  "('m, 'u, 'v, 'h) deserializers \<Rightarrow> SmolRTSP_RequestParser \<Rightarrow>
   ('m, 'u, 'v, 'h) SmolRTSP_Request \<Rightarrow> size_t \<Rightarrow> string \<Rightarrow>
   ('m, 'u, 'v, 'h) parse_outcome option" where
  "SmolRTSP_RequestParser_parse ds parser request sz data =
     (if state parser = SmolRTSP_ParseRequestResultOk \<or>
         state parser = SmolRTSP_ParseRequestResultErr
      then Some (Returned parser request)
      else parse_loop (transition_table ds ! enum_value (state parser))
             (parser\<lparr>cursor := Some data\<rparr>) request sz)"

text \<open>
  A caller that feeds a parser a sequence of chunks, one call per chunk, each with the
  length of the chunk as its size; it stops when a call does not return.
\<close>

fun feed ::
  "('m, 'u, 'v, 'h) deserializers \<Rightarrow> SmolRTSP_RequestParser \<Rightarrow>
   ('m, 'u, 'v, 'h) SmolRTSP_Request \<Rightarrow> string list \<Rightarrow>
   ('m, 'u, 'v, 'h) parse_outcome option" where
  "feed ds parser request [] = Some (Returned parser request)"
| "feed ds parser request (chunk # chunks) =
     (case SmolRTSP_RequestParser_parse ds parser request (of_nat (length chunk)) chunk of
        None \<Rightarrow> None
      | Some Null_deserializer_call \<Rightarrow> Some Null_deserializer_call
      | Some (Returned parser' request') \<Rightarrow> feed ds parser' request' chunks)"

text \<open>
  A parser as \<^verbatim>\<open>SmolRTSP_RequestParser_new\<close> leaves it when the allocation succeeds.
\<close>

definition fresh_parser :: SmolRTSP_RequestParser where
  "fresh_parser = \<lparr>state = SmolRTSP_ParseRequestResultNothingParsed, cursor = None\<rparr>"

subsection \<open>Deserializers to run the parser on\<close>

text \<open>
  The parser is run below on the request of the scenario of section 8, which needs
  deserializers to call. Three are given here; the one of the header map stays a
  parameter (no run from a fresh parser ever calls it).
\<close>

definition CRLF :: string where
  "CRLF = [CHR 0x0D, CHR 0x0A]"

definition is_ident_char :: "char \<Rightarrow> bool" where
  "is_ident_char c =
     (let n = (of_char c :: nat)
      in (65 \<le> n \<and> n \<le> 90) \<or> (97 \<le> n \<and> n \<le> 122) \<or> (48 \<le> n \<and> n \<le> 57))"

text \<open>
  Modelled from the spec: \<^verbatim>\<open>SmolRTSP_Method_deserialize\<close> is not among the sources. Section
  4.1: a deserializer parses one token from its window and reports the bytes it
  consumed; \<^verbatim>\<open>NeedMore\<close> when the window ends inside the token, with nothing consumed;
  \<^verbatim>\<open>Err\<close> when the method token has a character that is not an identifier character
  (section 8: the underscore is none). The token ends at the space that follows it.
\<close>

definition example_Method_deserialize :: "string Deserializer" where
  "example_Method_deserialize self sz data =
     (let window = take (unat sz) data;
          token = takeWhile (\<lambda>c. c \<noteq> CHR '' '') window
      in if \<not> list_all is_ident_char token then (SmolRTSP_DeserializeResultErr, 0, self)
         else if token = window then (SmolRTSP_DeserializeResultNeedMore, 0, self)
         else if token = [] then (SmolRTSP_DeserializeResultErr, 0, self)
         else (SmolRTSP_DeserializeResultOk, of_nat (length token + 1), token))"

text \<open>
  Modelled from the spec: \<^verbatim>\<open>SmolRTSP_RequestURI_deserialize\<close> is not among the sources
  (only its declaration is). Section 4.1, as above: the request URI is the token up to
  the next space.
\<close>

definition example_RequestURI_deserialize :: "string Deserializer" where
  "example_RequestURI_deserialize self sz data =
     (let window = take (unat sz) data;
          token = takeWhile (\<lambda>c. c \<noteq> CHR '' '') window
      in if token = window then (SmolRTSP_DeserializeResultNeedMore, 0, self)
         else if token = [] then (SmolRTSP_DeserializeResultErr, 0, self)
         else (SmolRTSP_DeserializeResultOk, of_nat (length token + 1), token))"

text \<open>
  Modelled from the spec: \<^verbatim>\<open>SmolRTSP_RTSPVersion_deserialize\<close> is not among the sources.
  Sections 3 and 6: the only version is RTSP/1.0, and lines end with CRLF. The version
  is stored as the pair of its two numbers.
\<close>

definition example_RTSPVersion_deserialize :: "(nat \<times> nat) Deserializer" where
  "example_RTSPVersion_deserialize self sz data =
     (let window = take (unat sz) data;
          line = ''RTSP/1.0'' @ CRLF
      in if prefix line window then (SmolRTSP_DeserializeResultOk, of_nat (length line), (1, 0))
         else if prefix window line then (SmolRTSP_DeserializeResultNeedMore, 0, self)
         else (SmolRTSP_DeserializeResultErr, 0, self))"

definition example_deserializers ::
  "'h Deserializer \<Rightarrow> (string, string, nat \<times> nat, 'h) deserializers" where
  "example_deserializers hm =
     \<lparr>SmolRTSP_Method_deserialize = example_Method_deserialize,
      SmolRTSP_RequestURI_deserialize = example_RequestURI_deserialize,
      SmolRTSP_RTSPVersion_deserialize = example_RTSPVersion_deserialize,
      SmolRTSP_HeaderMap_deserialize = hm\<rparr>"

text \<open>A header map deserializer that always asks for more input.\<close>

definition HeaderMap_wants_more :: "'h Deserializer" where
  "HeaderMap_wants_more self sz data = (SmolRTSP_DeserializeResultNeedMore, 0, self)"

text \<open>The request of the scenario (90 bytes), and the caller's storage before parsing.\<close>

definition setup_request :: string where
  "setup_request =
     ''SETUP rtsp://x/audio RTSP/1.0'' @ CRLF @ ''CSeq: 1'' @ CRLF @
     ''Transport: RTP/AVP/TCP;unicast;interleaved=0-1'' @ CRLF @ CRLF"

definition blank_request :: "'h \<Rightarrow> (string, string, nat \<times> nat, 'h) SmolRTSP_Request" where
  "blank_request h =
     \<lparr>start_line = \<lparr>method = [], uri = [], version = (0, 0)\<rparr>, header_map = h\<rparr>"

text \<open>The four states before the header map stage.\<close>

definition before_headers :: "SmolRTSP_ParseRequestResult \<Rightarrow> bool" where
  "before_headers s =
     (s = SmolRTSP_ParseRequestResultNothingParsed \<or>
      s = SmolRTSP_ParseRequestResultMethodParsed \<or>
      s = SmolRTSP_ParseRequestResultRequestURIParsed \<or>
      s = SmolRTSP_ParseRequestResultRTSPVersionParsed)"

section \<open>The media streams of the example server\<close>

type_synonym byte = "8 word"

type_synonym uint32_t = "32 word"

text \<open>
  \<^verbatim>\<open>SmolRTSP_RtpTimestamp_Raw(x)\<close>: a timestamp given by the caller as a 32-bit number of
  clock ticks. The type is declared in a header that is not among the sources; the
  example server builds its timestamps with this constructor only.
\<close>

datatype SmolRTSP_RtpTimestamp = SmolRTSP_RtpTimestamp_Raw uint32_t

fun raw_ticks :: "SmolRTSP_RtpTimestamp \<Rightarrow> uint32_t" where
  "raw_ticks (SmolRTSP_RtpTimestamp_Raw x) = x"

definition AUDIO_SAMPLES_PER_PACKET :: nat where
  "AUDIO_SAMPLES_PER_PACKET = 160"

definition VIDEO_SAMPLE_RATE :: nat where
  "VIDEO_SAMPLE_RATE = 90000"

definition VIDEO_FPS :: nat where
  "VIDEO_FPS = 25"

subsection \<open>Audio\<close>

text \<open>
  The arguments of one call of \<^verbatim>\<open>SmolRTSP_RtpTransport_send_packet\<close>: timestamp, marker,
  header slice and payload slice. What the call returns only decides whether
  \<^verbatim>\<open>perror\<close> is called; the sender goes on either way.
\<close>

record rtp_send =
  rtp_ts :: SmolRTSP_RtpTimestamp
  rtp_marker :: bool
  rtp_header :: "byte list"
  rtp_payload :: "byte list"

text \<open>
  The \<^verbatim>\<open>for\<close> loop of \<^verbatim>\<open>start_audio\<close> from the index \<open>i\<close> on, over the array
  \<^verbatim>\<open>___media_audio_g711a\<close> (its length is \<^verbatim>\<open>___media_audio_g711a_len\<close>); the result is
  the sequence of packets sent. The index and the products are \<^verbatim>\<open>size_t\<close>, which they
  do not overflow for an array that fits in memory; the argument of
  \<^verbatim>\<open>SmolRTSP_RtpTimestamp_Raw\<close> is converted to 32 bits.
\<close>

function start_audio_loop :: "byte list \<Rightarrow> nat \<Rightarrow> rtp_send list" where
  "start_audio_loop audio i =
     (if i * AUDIO_SAMPLES_PER_PACKET < length audio then
        (let ts = SmolRTSP_RtpTimestamp_Raw (of_nat (i * AUDIO_SAMPLES_PER_PACKET));
             marker = False;
             samples_count =
               (if length audio < i * AUDIO_SAMPLES_PER_PACKET + AUDIO_SAMPLES_PER_PACKET
                then length audio mod AUDIO_SAMPLES_PER_PACKET
                else AUDIO_SAMPLES_PER_PACKET);
             header = [];
             payload = take samples_count (drop (i * AUDIO_SAMPLES_PER_PACKET) audio)
         in \<lparr>rtp_ts = ts, rtp_marker = marker, rtp_header = header, rtp_payload = payload\<rparr> #
            start_audio_loop audio (i + 1))
      else [])"
  by pat_completeness auto
termination
  by (relation "measure (\<lambda>(audio, i). length audio - i * AUDIO_SAMPLES_PER_PACKET)")
     (auto simp: AUDIO_SAMPLES_PER_PACKET_def)

definition start_audio :: "byte list \<Rightarrow> rtp_send list" where
  "start_audio audio = start_audio_loop audio 0"

subsection \<open>Video\<close>

text \<open>
  \<^verbatim>\<open>SmolRTSP_NalUnit\<close>: the decoded header and the payload slice. The header type and the
  functions on it are a parameter, below.
\<close>

record 'hdr SmolRTSP_NalUnit =
  header :: 'hdr
  payload :: "byte list"

text \<open>
  The decoding of a NAL header is defined in files that are not among the sources. It
  is a parameter of the sender: \<open>NalHeader_parse\<close> is
  \<^verbatim>\<open>SmolRTSP_NalHeader_H264(SmolRTSP_H264NalHeader_parse(byte))\<close>, \<open>NalHeader_unit_type\<close> is
  \<^verbatim>\<open>SmolRTSP_NalHeader_unit_type\<close>, and \<open>NAL_UNIT_AUD\<close> is the constant
  \<^verbatim>\<open>SMOLRTSP_H264_NAL_UNIT_AUD\<close>.
\<close>

record 'hdr nal_decoding =
  NalHeader_parse :: "byte \<Rightarrow> 'hdr"
  NalHeader_unit_type :: "'hdr \<Rightarrow> byte"
  NAL_UNIT_AUD :: byte

text \<open>The arguments of one call of \<^verbatim>\<open>SmolRTSP_NalTransport_send_packet\<close>.\<close>

record 'hdr nal_send =
  nal_ts :: SmolRTSP_RtpTimestamp
  nalu :: "'hdr SmolRTSP_NalUnit"

text \<open>
  How a run of the sender ends: it returns, it calls \<^verbatim>\<open>abort\<close> on an invalid video
  file, or it does something C leaves undefined or that an assertion of the slice
  library stops (reading through a null pointer or past the array, a slice with its
  start after its end).
\<close>

datatype exit_status = Completed | Aborted | Faulted

text \<open>
  A pointer into the video array is the bytes from it to the end of the array; \<open>None\<close>
  is \<^verbatim>\<open>NULL\<close>. The slice \<^verbatim>\<open>video\<close> always ends where the array ends, so it is such a
  pointer too.

  \<^verbatim>\<open>send_nalu\<close> reads \<^verbatim>\<open>nalu_start[0]\<close>, takes the payload from \<^verbatim>\<open>nalu_start + 1\<close> up to
  \<^verbatim>\<open>nalu_end\<close>, steps the timestamp on an access unit delimiter and sends. It gives back
  the new value of \<^verbatim>\<open>*timestamp\<close> and what it sent.
\<close>

definition send_nalu ::
  "'hdr nal_decoding \<Rightarrow> uint32_t \<Rightarrow> byte list option \<Rightarrow> byte list \<Rightarrow>
   (uint32_t \<times> 'hdr nal_send) option" where
  "send_nalu dec timestamp nalu_start nalu_end =
     (case nalu_start of
        None \<Rightarrow> None
      | Some [] \<Rightarrow> None
      | Some (first # after) \<Rightarrow>
          if length after < length nalu_end then None
          else
            (let unit = \<lparr>header = NalHeader_parse dec first,
                        payload = take (length after - length nalu_end) after\<rparr>;
                 timestamp' =
                   (if NalHeader_unit_type dec (header unit) = NAL_UNIT_AUD dec
                    then timestamp + of_nat (VIDEO_SAMPLE_RATE div VIDEO_FPS)
                    else timestamp)
             in Some (timestamp', \<lparr>nal_ts = SmolRTSP_RtpTimestamp_Raw timestamp', nalu = unit\<rparr>)))"

text \<open>A packet sent before the rest of a run.\<close>

fun sent_then :: "'a \<Rightarrow> 'a list \<times> exit_status \<Rightarrow> 'a list \<times> exit_status" where
  "sent_then s (rest, status) = (s # rest, status)"

text \<open>
  A start code tester is given the slice and answers with the length of the start
  code the slice begins with, or 0. The \<^verbatim>\<open>while\<close> loop of \<^verbatim>\<open>start_video\<close> and the
  \<^verbatim>\<open>send_nalu\<close> after it: the result is the units sent and how the run ended.
  \<^verbatim>\<open>U8Slice99_advance\<close> beyond the end of the slice is a fault.
\<close>

type_synonym SmolRTSP_NalStartCodeTester = "byte list \<Rightarrow> nat"

function video_loop ::
  "'hdr nal_decoding \<Rightarrow> SmolRTSP_NalStartCodeTester \<Rightarrow> byte list \<Rightarrow> byte list option \<Rightarrow>
   uint32_t \<Rightarrow> 'hdr nal_send list \<times> exit_status" where
  "video_loop dec start_code_tester video nalu_start timestamp =
     (if video = [] then
        (case send_nalu dec timestamp nalu_start video of
           None \<Rightarrow> ([], Faulted)
         | Some (timestamp', s) \<Rightarrow> ([s], Completed))
      else
        (let start_code_len = start_code_tester video in
         if 0 = start_code_len then
           video_loop dec start_code_tester (drop 1 video) nalu_start timestamp
         else if nalu_start \<noteq> None then
           (case send_nalu dec timestamp nalu_start video of
              None \<Rightarrow> ([], Faulted)
            | Some (timestamp', s) \<Rightarrow>
                if length video < start_code_len then ([s], Faulted)
                else sent_then s
                  (video_loop dec start_code_tester (drop start_code_len video)
                     (Some (drop start_code_len video)) timestamp'))
         else if length video < start_code_len then ([], Faulted)
         else video_loop dec start_code_tester (drop start_code_len video)
                (Some (drop start_code_len video)) timestamp))"
  by pat_completeness auto
termination
  by (relation "measure (\<lambda>(dec, t, video, nalu_start, timestamp). length video)") auto

text \<open>
  \<^verbatim>\<open>start_video\<close>. \<^verbatim>\<open>smolrtsp_determine_start_code\<close> is defined in a file that is not among
  the sources; it is a parameter, called once, on the whole array. When it answers
  \<^verbatim>\<open>NULL\<close> the video file is invalid and the process aborts.
\<close>

definition start_video ::
  "'hdr nal_decoding \<Rightarrow> (byte list \<Rightarrow> SmolRTSP_NalStartCodeTester option) \<Rightarrow> byte list \<Rightarrow>
   'hdr nal_send list \<times> exit_status" where
  "start_video dec smolrtsp_determine_start_code video =
     (case smolrtsp_determine_start_code video of
        None \<Rightarrow> ([], Aborted)
      | Some start_code_tester \<Rightarrow> video_loop dec start_code_tester video None 0)"

declare start_audio_loop.simps [simp del]

declare video_loop.simps [simp del]

text \<open>Whether a unit that was sent is an access unit delimiter.\<close>

definition is_AUD :: "'hdr nal_decoding \<Rightarrow> 'hdr nal_send \<Rightarrow> bool" where
  "is_AUD dec s = (NalHeader_unit_type dec (header (nalu s)) = NAL_UNIT_AUD dec)"

text \<open>
  An Annex-B byte stream of units that all use the start code \<open>code\<close>: each unit is the
  start code, the header byte and the payload.
\<close>

definition annexb :: "byte list \<Rightarrow> (byte \<times> byte list) list \<Rightarrow> byte list" where
  "annexb code units = concat (map (\<lambda>(h, p). code @ h # p) units)"

text \<open>
  Modelled from the spec: the start code testers are not among the sources. Section
  4.5: the start codes are \<^verbatim>\<open>00 00 01\<close> and \<^verbatim>\<open>00 00 00 01\<close>. A tester answers the width
  of its start code when the slice begins with it, and 0 otherwise.
\<close>

definition test_start_code :: "byte list \<Rightarrow> SmolRTSP_NalStartCodeTester" where
  "test_start_code code data = (if prefix code data then length code else 0)"

definition start_code_3b :: "byte list" where
  "start_code_3b = [0, 0, 1]"

definition start_code_4b :: "byte list" where
  "start_code_4b = [0, 0, 0, 1]"

text \<open>
  Modelled from the spec: \<^verbatim>\<open>smolrtsp_determine_start_code\<close> is not among the sources.
  Section 4.5: the width (3 or 4 bytes) is detected once, from the first occurrence of
  a start code in the stream; a stream without any start code has no tester.
\<close>

fun smolrtsp_determine_start_code :: "byte list \<Rightarrow> SmolRTSP_NalStartCodeTester option" where
  "smolrtsp_determine_start_code [] = None"
| "smolrtsp_determine_start_code (b # bs) =
     (if test_start_code start_code_3b (b # bs) \<noteq> 0 then Some (test_start_code start_code_3b)
      else if test_start_code start_code_4b (b # bs) \<noteq> 0 then Some (test_start_code start_code_4b)
      else smolrtsp_determine_start_code bs)"

text \<open>
  Modelled from the spec: the H.264 header decoding is not among the sources. Section
  3: the header is one byte with the fields forbidden-zero bit, ref-idc and unit type;
  in H.264 these are its top bit, the next two bits and the low five bits, and the
  unit type of an access unit delimiter is 9.
\<close>

record SmolRTSP_H264NalHeader =
  forbidden_zero_bit :: bool
  ref_idc :: byte
  unit_type :: byte

definition SmolRTSP_H264NalHeader_parse :: "byte \<Rightarrow> SmolRTSP_H264NalHeader" where
  "SmolRTSP_H264NalHeader_parse b =
     \<lparr>forbidden_zero_bit = bit b 7, ref_idc = and (drop_bit 5 b) 3, unit_type = and b 31\<rparr>"

definition h264_decoding :: "SmolRTSP_H264NalHeader nal_decoding" where
  "h264_decoding =
     \<lparr>NalHeader_parse = SmolRTSP_H264NalHeader_parse,
      NalHeader_unit_type = unit_type,
      NAL_UNIT_AUD = 9\<rparr>"

text \<open>
  A stream of four units with 3-byte start codes: a delimiter, a slice of an IDR
  picture, a delimiter, a slice of another picture.
\<close>

definition four_units :: "(byte \<times> byte list) list" where
  "four_units = [(0x09, [0xF0]), (0x65, [0x88, 0x84]), (0x09, [0xF0]), (0x41, [0x9A])]"

text \<open>
  A sequence of sent units is stamped from the running timestamp \<open>ts\<close>: each unit
  carries the running timestamp as it is after the step this unit causes, which is
  \<^verbatim>\<open>VIDEO_SAMPLE_RATE / VIDEO_FPS\<close> for an access unit delimiter and nothing otherwise.
\<close>

fun stamped :: "'hdr nal_decoding \<Rightarrow> uint32_t \<Rightarrow> 'hdr nal_send list \<Rightarrow> bool" where
  "stamped dec ts [] = True"
| "stamped dec ts (s # rest) =
     (let ts' = ts + (if is_AUD dec s then of_nat (VIDEO_SAMPLE_RATE div VIDEO_FPS) else 0)
      in nal_ts s = SmolRTSP_RtpTimestamp_Raw ts' \<and> stamped dec ts' rest)"

section \<open>Diagnostics\<close>

lemma sublist_mid: "sublist s (a @ s @ b)"
  unfolding sublist_def by blast

lemma sublist_mid2: "sublist s (a @ b @ s @ c)"
  using sublist_mid [of s "a @ b" c] by simp

lemma print_ContentLength:
  "SmolRTSP_ParseError_print (SmolRTSP_ParseError_ContentLength v) buffer_writer out =
     out @ ''Invalid Content-Length `'' @ v @ ''`.''"
  by (simp add: SMOLRTSP_WRITE_SLICES_def buffer_writer_def)

lemma print_StrMismatch:
  "SmolRTSP_ParseError_print (SmolRTSP_ParseError_StrMismatch expected actual) buffer_writer out =
     out @ ''String mismatch: expected `'' @ expected @ ''`, found `'' @ actual @ ''`.''"
  by (simp add: SMOLRTSP_WRITE_SLICES_def buffer_writer_def)

lemma print_TypeMismatch:
  "SmolRTSP_ParseError_print (SmolRTSP_ParseError_TypeMismatch kind str) buffer_writer out =
     out @ ''Type mismatch: expected '' @ SmolRTSP_ParseType_str kind @ '', found `'' @ str @ ''`.''"
  by (simp add: SMOLRTSP_WRITE_SLICES_def buffer_writer_def)

lemma print_HeaderMapOverflow:
  "SmolRTSP_ParseError_print SmolRTSP_ParseError_HeaderMapOverflow buffer_writer out =
     out @ ''Not enough space left in the header map.''"
  by (simp add: buffer_writer_def)

text \<open>
  C10. \<^verbatim>\<open>SmolRTSP_ParseError_print\<close> takes the error value, a writer and its context and
  nothing else. Into a buffer it writes: for \<^verbatim>\<open>ContentLength\<close> the fixed text around
  the offending token; for \<^verbatim>\<open>StrMismatch\<close> the expected and the actual slice; for
  \<^verbatim>\<open>TypeMismatch\<close> the name of the expected kind and the offending token; for
  \<^verbatim>\<open>HeaderMapOverflow\<close> one fixed message. Every slice an error carries occurs
  verbatim (as a contiguous run) in what was written.
\<close>

theorem ParseError_print_diagnostic:
  "SmolRTSP_ParseError_print (SmolRTSP_ParseError_ContentLength v) buffer_writer out =
     out @ ''Invalid Content-Length `'' @ v @ ''`.'' \<and>
   SmolRTSP_ParseError_print (SmolRTSP_ParseError_StrMismatch expected actual) buffer_writer out =
     out @ ''String mismatch: expected `'' @ expected @ ''`, found `'' @ actual @ ''`.'' \<and>
   SmolRTSP_ParseError_print (SmolRTSP_ParseError_TypeMismatch kind str) buffer_writer out =
     out @ ''Type mismatch: expected '' @ SmolRTSP_ParseType_str kind @ '', found `'' @ str @ ''`.'' \<and>
   SmolRTSP_ParseError_print SmolRTSP_ParseError_HeaderMapOverflow buffer_writer out =
     out @ ''Not enough space left in the header map.'' \<and>
   sublist v
     (SmolRTSP_ParseError_print (SmolRTSP_ParseError_ContentLength v) buffer_writer out) \<and>
   sublist expected
     (SmolRTSP_ParseError_print (SmolRTSP_ParseError_StrMismatch expected actual) buffer_writer out) \<and>
   sublist actual
     (SmolRTSP_ParseError_print (SmolRTSP_ParseError_StrMismatch expected actual) buffer_writer out) \<and>
   sublist (SmolRTSP_ParseType_str kind)
     (SmolRTSP_ParseError_print (SmolRTSP_ParseError_TypeMismatch kind str) buffer_writer out) \<and>
   sublist str
     (SmolRTSP_ParseError_print (SmolRTSP_ParseError_TypeMismatch kind str) buffer_writer out)"
proof -
  have cl: "sublist v
     (SmolRTSP_ParseError_print (SmolRTSP_ParseError_ContentLength v) buffer_writer out)"
    unfolding print_ContentLength by (rule sublist_mid2)
  have se: "sublist expected
     (SmolRTSP_ParseError_print (SmolRTSP_ParseError_StrMismatch expected actual) buffer_writer out)"
    unfolding print_StrMismatch by (rule sublist_mid2)
  have sa: "sublist actual
     (SmolRTSP_ParseError_print (SmolRTSP_ParseError_StrMismatch expected actual) buffer_writer out)"
    unfolding print_StrMismatch
    using sublist_mid [of actual "out @ ''String mismatch: expected `'' @ expected @ ''`, found `''" "''`.''"]
    by simp
  have tk: "sublist (SmolRTSP_ParseType_str kind)
     (SmolRTSP_ParseError_print (SmolRTSP_ParseError_TypeMismatch kind str) buffer_writer out)"
    unfolding print_TypeMismatch by (rule sublist_mid2)
  have ts: "sublist str
     (SmolRTSP_ParseError_print (SmolRTSP_ParseError_TypeMismatch kind str) buffer_writer out)"
    unfolding print_TypeMismatch
    using sublist_mid [of str "out @ ''Type mismatch: expected '' @ SmolRTSP_ParseType_str kind @ '', found `''" "''`.''"]
    by simp
  from cl se sa tk ts show ?thesis
    using print_ContentLength print_StrMismatch print_TypeMismatch print_HeaderMapOverflow
    by blast
qed

section \<open>The parser's state machine\<close>

declare parse_loop.simps [code]

lemma new_parser: "SmolRTSP_RequestParser_new True = Some fresh_parser"
  by (simp add: SmolRTSP_RequestParser_new_def fresh_parser_def)

subsection \<open>What one call can do\<close>

text \<open>
  The loop keeps the transition it was started with. If it returns, the state it
  leaves is the state it found, the transition's next state, or \<^verbatim>\<open>Err\<close> (as long as
  neither of the first two is \<^verbatim>\<open>HeaderMapParsed\<close>, the only state that leads to
  \<^verbatim>\<open>Ok\<close>).
\<close>

lemma parse_loop_states:
  assumes "parse_loop t p r sz = Some y"
  shows "state p \<noteq> SmolRTSP_ParseRequestResultHeaderMapParsed \<longrightarrow>
         next_state_if_ok t \<noteq> SmolRTSP_ParseRequestResultHeaderMapParsed \<longrightarrow>
         (\<forall>p' r'. y = Returned p' r' \<longrightarrow>
            state p' = state p \<or> state p' = next_state_if_ok t \<or>
            state p' = SmolRTSP_ParseRequestResultErr)"
  using assms
proof (induct rule: parse_loop.raw_induct [rotated 1, consumes 1, case_names step])
  case (step loop t p r sz y)
  show ?case
  proof (intro impI allI)
    fix p' r'
    assume s: "state p \<noteq> SmolRTSP_ParseRequestResultHeaderMapParsed"
      and n: "next_state_if_ok t \<noteq> SmolRTSP_ParseRequestResultHeaderMapParsed"
      and y: "y = Returned p' r'"
    from step(2) y obtain D where D: "deserializer t = Some D"
      by (cases "deserializer t") auto
    obtain res k r1 where c: "D r sz (at_cursor p) = (res, k, r1)"
      by (cases "D r sz (at_cursor p)") auto
    show "state p' = state p \<or> state p' = next_state_if_ok t \<or>
            state p' = SmolRTSP_ParseRequestResultErr"
    proof (cases res)
      case SmolRTSP_DeserializeResultOk
      with step(2) D c s
      have "loop t ((advance_cursor k p)\<lparr>state := next_state_if_ok t\<rparr>) r1 (sz - k) = Some y"
        by simp
      from step(1) [OF this] n y show ?thesis
        by (simp add: advance_cursor_def)
    next
      case SmolRTSP_DeserializeResultErr
      with step(2) D c y show ?thesis by (auto simp: advance_cursor_def)
    next
      case SmolRTSP_DeserializeResultNeedMore
      with step(2) D c y show ?thesis by (auto simp: advance_cursor_def)
    qed
  qed
qed

text \<open>
  What the transition's deserializer leaves alone in the request, the loop leaves alone.
\<close>

lemma parse_loop_keeps:
  assumes "parse_loop t p r sz = Some y"
  shows "(\<forall>D r sz data res n r'.
            deserializer t = Some D \<longrightarrow> D r sz data = (res, n, r') \<longrightarrow> f r' = f r) \<longrightarrow>
         (\<forall>p' r'. y = Returned p' r' \<longrightarrow> f r' = f r)"
  using assms
proof (induct rule: parse_loop.raw_induct [rotated 1, consumes 1, case_names step])
  case (step loop t p r sz y)
  show ?case
  proof (intro impI allI)
    fix p' r'
    assume k: "\<forall>D r sz data res n r'.
        deserializer t = Some D \<longrightarrow> D r sz data = (res, n, r') \<longrightarrow> f r' = f r"
      and y: "y = Returned p' r'"
    from step(2) y obtain D where D: "deserializer t = Some D"
      by (cases "deserializer t") auto
    obtain res k r1 where c: "D r sz (at_cursor p) = (res, k, r1)"
      by (cases "D r sz (at_cursor p)") auto
    from k D c have r1: "f r1 = f r" by blast
    show "f r' = f r"
    proof (cases res)
      case SmolRTSP_DeserializeResultOk
      show ?thesis
      proof (cases "state p = SmolRTSP_ParseRequestResultHeaderMapParsed")
        case True
        with step(2) D c y SmolRTSP_DeserializeResultOk r1 show ?thesis by auto
      next
        case False
        with step(2) D c SmolRTSP_DeserializeResultOk
        have "loop t ((advance_cursor k p)\<lparr>state := next_state_if_ok t\<rparr>) r1 (sz - k) = Some y"
          by simp
        from step(1) [OF this] k y r1 show ?thesis by simp
      qed
    next
      case SmolRTSP_DeserializeResultErr
      with step(2) D c y r1 show ?thesis by auto
    next
      case SmolRTSP_DeserializeResultNeedMore
      with step(2) D c y r1 show ?thesis by auto
    qed
  qed
qed

lemma table_nth:
  "transition_table ds ! enum_value SmolRTSP_ParseRequestResultNothingParsed =
     ASSOC (SmolRTSP_Method_deserialize ds) (\<lambda>r. method (start_line r))
        (\<lambda>e r. r\<lparr>start_line := (start_line r)\<lparr>method := e\<rparr>\<rparr>)
        SmolRTSP_ParseRequestResultMethodParsed"
  "transition_table ds ! enum_value SmolRTSP_ParseRequestResultMethodParsed =
     ASSOC (SmolRTSP_RequestURI_deserialize ds) (\<lambda>r. uri (start_line r))
        (\<lambda>e r. r\<lparr>start_line := (start_line r)\<lparr>uri := e\<rparr>\<rparr>)
        SmolRTSP_ParseRequestResultRequestURIParsed"
  "transition_table ds ! enum_value SmolRTSP_ParseRequestResultRequestURIParsed =
     ASSOC (SmolRTSP_RTSPVersion_deserialize ds) (\<lambda>r. version (start_line r))
        (\<lambda>e r. r\<lparr>start_line := (start_line r)\<lparr>version := e\<rparr>\<rparr>)
        SmolRTSP_ParseRequestResultRTSPVersionParsed"
  "transition_table ds ! enum_value SmolRTSP_ParseRequestResultRTSPVersionParsed =
     zero_FSMTransition"
  "transition_table ds ! enum_value SmolRTSP_ParseRequestResultHeaderMapParsed =
     ASSOC (SmolRTSP_HeaderMap_deserialize ds) header_map
        (\<lambda>e r. r\<lparr>header_map := e\<rparr>)
        SmolRTSP_ParseRequestResultHeaderMapParsed"
  by (simp_all add: transition_table_def)

lemma next_state_ASSOC: "next_state_if_ok (ASSOC d g w n) = n"
  by (simp add: ASSOC_def)

lemma parse_RTSPVersionParsed:
  "state p = SmolRTSP_ParseRequestResultRTSPVersionParsed \<Longrightarrow>
   SmolRTSP_RequestParser_parse ds p r sz data = Some Null_deserializer_call"
  by (simp add: SmolRTSP_RequestParser_parse_def table_nth zero_FSMTransition_def
      parse_loop.simps del: enum_value.simps)

text \<open>Calls and feeds on a parser before the header map stay before it.\<close>

lemma ASSOC_keeps:
  assumes "\<And>e r. f (w e r) = f r"
  shows "\<forall>D r sz data res n r'.
           deserializer (ASSOC d g w s) = Some D \<longrightarrow> D r sz data = (res, n, r') \<longrightarrow> f r' = f r"
  using assms by (auto simp: ASSOC_def split: prod.splits)

lemma parse_loop_ASSOC_keeps:
  assumes l: "parse_loop (ASSOC d g w s) p r sz = Some (Returned p' r')"
    and w: "\<And>e r. f (w e r) = f r"
  shows "f r' = f r"
proof -
  have "\<forall>D r sz data res n r'.
           deserializer (ASSOC d g w s) = Some D \<longrightarrow> D r sz data = (res, n, r') \<longrightarrow> f r' = f r"
    by (rule ASSOC_keeps) (rule w)
  with parse_loop_keeps [OF l, of f] show ?thesis by blast
qed

lemma parse_before_headers:
  assumes pre: "before_headers (state p) \<or> state p = SmolRTSP_ParseRequestResultErr"
    and ret: "SmolRTSP_RequestParser_parse ds p r sz data = Some (Returned p' r')"
  shows "(before_headers (state p') \<or> state p' = SmolRTSP_ParseRequestResultErr) \<and>
         header_map r' = header_map r"
proof -
  consider (err) "state p = SmolRTSP_ParseRequestResultErr"
    | (start) "state p = SmolRTSP_ParseRequestResultNothingParsed"
    | (meth) "state p = SmolRTSP_ParseRequestResultMethodParsed"
    | (requri) "state p = SmolRTSP_ParseRequestResultRequestURIParsed"
    | (vers) "state p = SmolRTSP_ParseRequestResultRTSPVersionParsed"
    using pre unfolding before_headers_def by blast
  then show ?thesis
  proof cases
    case err
    with ret show ?thesis by (simp add: SmolRTSP_RequestParser_parse_def)
  next
    case start
    with ret have l: "parse_loop
        (transition_table ds ! enum_value SmolRTSP_ParseRequestResultNothingParsed)
        (p\<lparr>cursor := Some data\<rparr>) r sz = Some (Returned p' r')"
      by (simp add: SmolRTSP_RequestParser_parse_def del: enum_value.simps)
    from parse_loop_ASSOC_keeps [OF l [unfolded table_nth], of header_map]
    have "header_map r' = header_map r" by simp
    with parse_loop_states [OF l] start show ?thesis
      by (auto simp: table_nth next_state_ASSOC before_headers_def simp del: enum_value.simps)
  next
    case meth
    with ret have l: "parse_loop
        (transition_table ds ! enum_value SmolRTSP_ParseRequestResultMethodParsed)
        (p\<lparr>cursor := Some data\<rparr>) r sz = Some (Returned p' r')"
      by (simp add: SmolRTSP_RequestParser_parse_def del: enum_value.simps)
    from parse_loop_ASSOC_keeps [OF l [unfolded table_nth], of header_map]
    have "header_map r' = header_map r" by simp
    with parse_loop_states [OF l] meth show ?thesis
      by (auto simp: table_nth next_state_ASSOC before_headers_def simp del: enum_value.simps)
  next
    case requri
    with ret have l: "parse_loop
        (transition_table ds ! enum_value SmolRTSP_ParseRequestResultRequestURIParsed)
        (p\<lparr>cursor := Some data\<rparr>) r sz = Some (Returned p' r')"
      by (simp add: SmolRTSP_RequestParser_parse_def del: enum_value.simps)
    from parse_loop_ASSOC_keeps [OF l [unfolded table_nth], of header_map]
    have "header_map r' = header_map r" by simp
    with parse_loop_states [OF l] requri show ?thesis
      by (auto simp: table_nth next_state_ASSOC before_headers_def simp del: enum_value.simps)
  next
    case vers
    with ret parse_RTSPVersionParsed [OF vers, of ds r sz data] show ?thesis by simp
  qed
qed

lemma feed_before_headers:
  "before_headers (state p) \<or> state p = SmolRTSP_ParseRequestResultErr \<Longrightarrow>
   feed ds p r chunks = Some (Returned p' r') \<Longrightarrow>
   (before_headers (state p') \<or> state p' = SmolRTSP_ParseRequestResultErr) \<and>
   header_map r' = header_map r"
proof (induction chunks arbitrary: p r)
  case Nil
  then show ?case by simp
next
  case (Cons c cs)
  from Cons.prems(2) obtain p1 r1 where
    1: "SmolRTSP_RequestParser_parse ds p r (of_nat (length c)) c = Some (Returned p1 r1)"
    and 2: "feed ds p1 r1 cs = Some (Returned p' r')"
    by (auto split: option.splits parse_outcome.splits)
  from parse_before_headers [OF Cons.prems(1) 1]
  have 3: "before_headers (state p1) \<or> state p1 = SmolRTSP_ParseRequestResultErr"
    and 4: "header_map r1 = header_map r" by simp_all
  from Cons.IH [OF 3 2] 4 show ?case by simp
qed

lemma terminal_parse:
  "state parser = SmolRTSP_ParseRequestResultOk \<or> state parser = SmolRTSP_ParseRequestResultErr \<Longrightarrow>
   SmolRTSP_RequestParser_parse ds parser request sz data = Some (Returned parser request)"
  by (simp add: SmolRTSP_RequestParser_parse_def)

subsection \<open>The scenario, run\<close>

lemma run_whole:
  "feed (example_deserializers hm) fresh_parser (blank_request (h::'h::equal)) [setup_request] =
   Some (Returned
     \<lparr>state = SmolRTSP_ParseRequestResultErr, cursor = Some (drop 6 setup_request)\<rparr>
     \<lparr>start_line = \<lparr>method = ''SETUP'', uri = [], version = (0, 0)\<rparr>, header_map = h\<rparr>)"
  by code_simp

lemma run_split_6:
  "feed (example_deserializers hm) fresh_parser (blank_request (h::'h::equal))
     [take 6 setup_request, drop 6 setup_request] =
   Some (Returned
     \<lparr>state = SmolRTSP_ParseRequestResultRequestURIParsed,
      cursor = Some (drop 51 setup_request)\<rparr>
     \<lparr>start_line = \<lparr>method = ''SETUP'', uri = ''1'' @ CRLF @ ''Transport:'',
        version = (0, 0)\<rparr>, header_map = h\<rparr>)"
  by code_simp

lemma run_split_40:
  "feed (example_deserializers hm) fresh_parser (blank_request (h::'h::equal))
     [take 40 setup_request, drop 40 setup_request] =
   Some (Returned
     \<lparr>state = SmolRTSP_ParseRequestResultErr,
      cursor = Some (drop 6 (take 40 setup_request))\<rparr>
     \<lparr>start_line = \<lparr>method = ''SETUP'', uri = [], version = (0, 0)\<rparr>, header_map = h\<rparr>)"
  by code_simp

lemma run_stages:
  "feed (example_deserializers hm) fresh_parser (blank_request (h::'h::equal))
     [''SETUP '', ''rtsp://x/audio '', ''RTSP/1.0'' @ CRLF] =
   Some (Returned
     \<lparr>state = SmolRTSP_ParseRequestResultRTSPVersionParsed, cursor = Some []\<rparr>
     \<lparr>start_line = \<lparr>method = ''SETUP'', uri = ''rtsp://x/audio'', version = (1, 0)\<rparr>,
      header_map = h\<rparr>)"
  by code_simp

lemma run_stages_then:
  "feed (example_deserializers hm) fresh_parser (blank_request (h::'h::equal))
     [''SETUP '', ''rtsp://x/audio '', ''RTSP/1.0'' @ CRLF, chunk] =
   Some Null_deserializer_call"
  by code_simp


lemma run_whole_call:
  "SmolRTSP_RequestParser_parse (example_deserializers hm) fresh_parser
     (blank_request (h::'h::equal)) (of_nat (length setup_request)) setup_request =
   Some (Returned
     \<lparr>state = SmolRTSP_ParseRequestResultErr, cursor = Some (drop 6 setup_request)\<rparr>
     \<lparr>start_line = \<lparr>method = ''SETUP'', uri = [], version = (0, 0)\<rparr>, header_map = h\<rparr>)"
  by code_simp

subsection \<open>Properties of the parser\<close>

text \<open>
  C3. Sticky terminal states: a parser whose state is \<^verbatim>\<open>Ok\<close> or \<^verbatim>\<open>Err\<close> (the state
  in which a call that returned \<^verbatim>\<open>Ok\<close> or \<^verbatim>\<open>Err\<close> left it) answers every further
  call, whatever the size and the data, by returning with the parser (state and cursor)
  and the request unchanged; the value returned is that same state. The same holds
  for any sequence of further calls.
\<close>

theorem terminal_states_absorb:
  assumes "state parser = SmolRTSP_ParseRequestResultOk \<or>
           state parser = SmolRTSP_ParseRequestResultErr"
  shows "SmolRTSP_RequestParser_parse ds parser request sz data =
           Some (Returned parser request) \<and>
         feed ds parser request chunks = Some (Returned parser request)"
proof
  show "SmolRTSP_RequestParser_parse ds parser request sz data = Some (Returned parser request)"
    using assms by (rule terminal_parse)
  show "feed ds parser request chunks = Some (Returned parser request)"
    by (induction chunks) (simp_all add: terminal_parse [OF assms])
qed

theorem terminal_states_absorb_witness:
  "(state \<lparr>state = SmolRTSP_ParseRequestResultErr, cursor = Some (drop 6 setup_request)\<rparr> =
      SmolRTSP_ParseRequestResultOk \<or>
    state \<lparr>state = SmolRTSP_ParseRequestResultErr, cursor = Some (drop 6 setup_request)\<rparr> =
      SmolRTSP_ParseRequestResultErr) \<and>
   SmolRTSP_RequestParser_parse (example_deserializers HeaderMap_wants_more)
     \<lparr>state = SmolRTSP_ParseRequestResultErr, cursor = Some (drop 6 setup_request)\<rparr>
     (blank_request ()) 0 [] =
   Some (Returned
     \<lparr>state = SmolRTSP_ParseRequestResultErr, cursor = Some (drop 6 setup_request)\<rparr>
     (blank_request ())) \<and>
   feed (example_deserializers HeaderMap_wants_more)
     \<lparr>state = SmolRTSP_ParseRequestResultErr, cursor = Some (drop 6 setup_request)\<rparr>
     (blank_request ()) [''PLAY '', []] =
   Some (Returned
     \<lparr>state = SmolRTSP_ParseRequestResultErr, cursor = Some (drop 6 setup_request)\<rparr>
     (blank_request ()))"
  using terminal_states_absorb
    [of "\<lparr>state = SmolRTSP_ParseRequestResultErr, cursor = Some (drop 6 setup_request)\<rparr>"
        "example_deserializers HeaderMap_wants_more" "blank_request ()" 0 "[]" "[''PLAY '', []]"]
  by simp

text \<open>
  C2. On a deserializer's \<^verbatim>\<open>Ok\<close> the loop advances the cursor and moves the state on,
  but it then calls the same deserializer again, not the one of the new state. So a
  call on a fresh parser, if it returns, runs only the method deserializer: it leaves
  the parser in \<^verbatim>\<open>NothingParsed\<close>, \<^verbatim>\<open>MethodParsed\<close> or \<^verbatim>\<open>Err\<close>, never in \<^verbatim>\<open>Ok\<close>, and the
  URI, the version and the header map of the request are as they were, for every
  deserializer and every input.
\<close>

theorem fresh_call_runs_method_stage_only:
  assumes "SmolRTSP_RequestParser_parse ds fresh_parser request sz data =
             Some (Returned parser' request')"
  shows "(state parser' = SmolRTSP_ParseRequestResultNothingParsed \<or>
          state parser' = SmolRTSP_ParseRequestResultMethodParsed \<or>
          state parser' = SmolRTSP_ParseRequestResultErr) \<and>
         uri (start_line request') = uri (start_line request) \<and>
         version (start_line request') = version (start_line request) \<and>
         header_map request' = header_map request"
proof -
  from assms have l: "parse_loop
      (transition_table ds ! enum_value SmolRTSP_ParseRequestResultNothingParsed)
      (fresh_parser\<lparr>cursor := Some data\<rparr>) request sz = Some (Returned parser' request')"
    by (simp add: SmolRTSP_RequestParser_parse_def fresh_parser_def del: enum_value.simps)
  from parse_loop_states [OF l]
  have st: "state parser' = SmolRTSP_ParseRequestResultNothingParsed \<or>
          state parser' = SmolRTSP_ParseRequestResultMethodParsed \<or>
          state parser' = SmolRTSP_ParseRequestResultErr"
    by (auto simp: table_nth next_state_ASSOC fresh_parser_def simp del: enum_value.simps)
  from parse_loop_ASSOC_keeps [OF l [unfolded table_nth], of "\<lambda>r. uri (start_line r)"]
  have u: "uri (start_line request') = uri (start_line request)" by simp
  from parse_loop_ASSOC_keeps [OF l [unfolded table_nth], of "\<lambda>r. version (start_line r)"]
  have v: "version (start_line request') = version (start_line request)" by simp
  from parse_loop_ASSOC_keeps [OF l [unfolded table_nth], of header_map]
  have h: "header_map request' = header_map request" by simp
  from st u v h show ?thesis by simp
qed

theorem fresh_call_runs_method_stage_only_witness:
  "SmolRTSP_RequestParser_parse (example_deserializers HeaderMap_wants_more) fresh_parser
     (blank_request ()) (of_nat (length setup_request)) setup_request =
   Some (Returned
     \<lparr>state = SmolRTSP_ParseRequestResultErr, cursor = Some (drop 6 setup_request)\<rparr>
     \<lparr>start_line = \<lparr>method = ''SETUP'', uri = [], version = (0, 0)\<rparr>, header_map = ()\<rparr>) \<and>
   uri (start_line \<lparr>start_line = \<lparr>method = ''SETUP'', uri = [], version = (0, 0)\<rparr>,
     header_map = ()\<rparr>) = uri (start_line (blank_request ()))"
  using fresh_call_runs_method_stage_only
    [OF run_whole_call [of HeaderMap_wants_more "()"]]
    run_whole_call [of HeaderMap_wants_more "()"]
  by simp

text \<open>
  C4. The request of the scenario, fed to a fresh parser in two chunks split at any
  place \<open>k\<close>: whatever the deserializers, if both calls return then the parser is not in
  the state \<^verbatim>\<open>Ok\<close> (it is in one of the four states before the header map, or in
  \<^verbatim>\<open>Err\<close>), and the header map of the request is as it was before the first call.
\<close>

theorem setup_in_two_chunks_never_Ok:
  assumes "feed ds fresh_parser request [take k setup_request, drop k setup_request] =
             Some (Returned parser' request')"
  shows "state parser' \<noteq> SmolRTSP_ParseRequestResultOk \<and>
         (before_headers (state parser') \<or> state parser' = SmolRTSP_ParseRequestResultErr) \<and>
         header_map request' = header_map request"
proof -
  have "before_headers (state fresh_parser) \<or>
        state fresh_parser = SmolRTSP_ParseRequestResultErr"
    by (simp add: before_headers_def fresh_parser_def)
  from feed_before_headers [OF this assms] show ?thesis
    by (auto simp: before_headers_def)
qed

theorem setup_in_two_chunks_never_Ok_witness:
  "feed (example_deserializers HeaderMap_wants_more) fresh_parser (blank_request ())
     [take 40 setup_request, drop 40 setup_request] =
   Some (Returned
     \<lparr>state = SmolRTSP_ParseRequestResultErr,
      cursor = Some (drop 6 (take 40 setup_request))\<rparr>
     \<lparr>start_line = \<lparr>method = ''SETUP'', uri = [], version = (0, 0)\<rparr>, header_map = ()\<rparr>) \<and>
   state \<lparr>state = SmolRTSP_ParseRequestResultErr,
      cursor = Some (drop 6 (take 40 setup_request))\<rparr> \<noteq> SmolRTSP_ParseRequestResultOk"
  using setup_in_two_chunks_never_Ok
    [OF run_split_40 [of HeaderMap_wants_more "()"]]
    run_split_40 [of HeaderMap_wants_more "()"]
  by simp

text \<open>
  C5. The entry of the table at the index of \<^verbatim>\<open>RTSPVersionParsed\<close> has a null
  deserializer: a call of the parser in that state calls through a null function
  pointer. The state is reached: three calls on a fresh parser, one chunk per token of
  the request line, leave the parser there, and the fourth call, with any chunk, is
  the call through the null pointer.
\<close>

theorem RTSPVersionParsed_entry_is_null:
  "deserializer (transition_table ds ! enum_value SmolRTSP_ParseRequestResultRTSPVersionParsed) =
     None \<and>
   SmolRTSP_RequestParser_parse ds
     \<lparr>state = SmolRTSP_ParseRequestResultRTSPVersionParsed, cursor = c\<rparr> request sz data =
     Some Null_deserializer_call \<and>
   feed (example_deserializers hm) fresh_parser (blank_request (h::'h::equal))
     [''SETUP '', ''rtsp://x/audio '', ''RTSP/1.0'' @ CRLF] =
     Some (Returned
       \<lparr>state = SmolRTSP_ParseRequestResultRTSPVersionParsed, cursor = Some []\<rparr>
       \<lparr>start_line = \<lparr>method = ''SETUP'', uri = ''rtsp://x/audio'', version = (1, 0)\<rparr>,
        header_map = h\<rparr>) \<and>
   feed (example_deserializers hm) fresh_parser (blank_request h)
     [''SETUP '', ''rtsp://x/audio '', ''RTSP/1.0'' @ CRLF, chunk] =
     Some Null_deserializer_call"
  using run_stages [of hm h] run_stages_then [of hm h chunk]
    parse_RTSPVersionParsed
      [of "\<lparr>state = SmolRTSP_ParseRequestResultRTSPVersionParsed, cursor = c\<rparr>" ds request sz data]
  by (simp add: table_nth zero_FSMTransition_def del: enum_value.simps feed.simps)

text \<open>
  C1. Chunk invariance fails on the request of the scenario. Fed whole, the method
  deserializer runs twice (on the method, then on the URI, where it fails): the parser
  ends in \<^verbatim>\<open>Err\<close> and the URI is never written. Fed in two chunks split after the
  method, the second call runs the URI deserializer: the parser ends in
  \<^verbatim>\<open>RequestURIParsed\<close> with a URI written. The two final requests differ.
\<close>

theorem chunking_changes_the_result:
  "feed (example_deserializers hm) fresh_parser (blank_request (h::'h::equal)) [setup_request] =
     Some (Returned
       \<lparr>state = SmolRTSP_ParseRequestResultErr, cursor = Some (drop 6 setup_request)\<rparr>
       \<lparr>start_line = \<lparr>method = ''SETUP'', uri = [], version = (0, 0)\<rparr>, header_map = h\<rparr>) \<and>
   feed (example_deserializers hm) fresh_parser (blank_request h)
     [take 6 setup_request, drop 6 setup_request] =
     Some (Returned
       \<lparr>state = SmolRTSP_ParseRequestResultRequestURIParsed,
        cursor = Some (drop 51 setup_request)\<rparr>
       \<lparr>start_line = \<lparr>method = ''SETUP'', uri = ''1'' @ CRLF @ ''Transport:'',
          version = (0, 0)\<rparr>, header_map = h\<rparr>) \<and>
   take 6 setup_request @ drop 6 setup_request = setup_request \<and>
   feed (example_deserializers hm) fresh_parser (blank_request h) [setup_request] \<noteq>
   feed (example_deserializers hm) fresh_parser (blank_request h)
     [take 6 setup_request, drop 6 setup_request]"
  using run_whole [of hm h] run_split_6 [of hm h]
  by (simp del: feed.simps)

section \<open>Audio timestamps\<close>

lemma last_chunk_count:
  assumes "i * AUDIO_SAMPLES_PER_PACKET < length audio"
  shows "take (if length audio < i * AUDIO_SAMPLES_PER_PACKET + AUDIO_SAMPLES_PER_PACKET
               then length audio mod AUDIO_SAMPLES_PER_PACKET
               else AUDIO_SAMPLES_PER_PACKET)
           (drop (i * AUDIO_SAMPLES_PER_PACKET) audio) =
         take AUDIO_SAMPLES_PER_PACKET (drop (i * AUDIO_SAMPLES_PER_PACKET) audio)"
proof (cases "length audio < i * AUDIO_SAMPLES_PER_PACKET + AUDIO_SAMPLES_PER_PACKET")
  case False
  then show ?thesis by simp
next
  case True
  with assms have "length audio div AUDIO_SAMPLES_PER_PACKET = i"
    by (simp add: AUDIO_SAMPLES_PER_PACKET_def)
  then have "length audio mod AUDIO_SAMPLES_PER_PACKET =
      length audio - i * AUDIO_SAMPLES_PER_PACKET"
    by (metis minus_div_mult_eq_mod)
  with True show ?thesis by simp
qed

lemma start_audio_loop_length:
  "length (start_audio_loop audio k) =
     (length audio + (AUDIO_SAMPLES_PER_PACKET - 1)) div AUDIO_SAMPLES_PER_PACKET - k"
proof (induction audio k rule: start_audio_loop.induct)
  case (1 audio i)
  show ?case
  proof (cases "i * AUDIO_SAMPLES_PER_PACKET < length audio")
    case True
    then have "i < (length audio + (AUDIO_SAMPLES_PER_PACKET - 1)) div AUDIO_SAMPLES_PER_PACKET"
      by (simp add: AUDIO_SAMPLES_PER_PACKET_def)
    moreover from "1.IH" [OF True refl refl refl refl refl]
    have "length (start_audio_loop audio (i + 1)) =
      (length audio + (AUDIO_SAMPLES_PER_PACKET - 1)) div AUDIO_SAMPLES_PER_PACKET - (i + 1)" .
    ultimately show ?thesis
      using True by (subst start_audio_loop.simps) (simp add: Let_def)
  next
    case False
    then have "(length audio + (AUDIO_SAMPLES_PER_PACKET - 1)) div AUDIO_SAMPLES_PER_PACKET \<le> i"
      by (simp add: AUDIO_SAMPLES_PER_PACKET_def)
    with False show ?thesis
      by (subst start_audio_loop.simps) simp
  qed
qed

lemma start_audio_loop_nth:
  "j < length (start_audio_loop audio k) \<Longrightarrow>
   start_audio_loop audio k ! j =
     \<lparr>rtp_ts = SmolRTSP_RtpTimestamp_Raw (of_nat ((k + j) * AUDIO_SAMPLES_PER_PACKET)),
      rtp_marker = False, rtp_header = [],
      rtp_payload =
        take AUDIO_SAMPLES_PER_PACKET (drop ((k + j) * AUDIO_SAMPLES_PER_PACKET) audio)\<rparr>"
proof (induction audio k arbitrary: j rule: start_audio_loop.induct)
  case (1 audio i)
  show ?case
  proof (cases "i * AUDIO_SAMPLES_PER_PACKET < length audio")
    case False
    with "1.prems" show ?thesis
      by (subst (asm) start_audio_loop.simps) simp
  next
    case True
    note unfold = start_audio_loop.simps [of audio i]
    show ?thesis
    proof (cases j)
      case 0
      with True show ?thesis
        unfolding unfold using last_chunk_count [OF True] by (simp add: Let_def)
    next
      case (Suc j')
      with "1.prems" True have "j' < length (start_audio_loop audio (i + 1))"
        unfolding unfold by (simp add: Let_def)
      from "1.IH" [OF True refl refl refl refl refl this] Suc True show ?thesis
        unfolding unfold by (simp add: Let_def)
    qed
  qed
qed

lemma start_audio_length:
  "length (start_audio audio) =
     (length audio + (AUDIO_SAMPLES_PER_PACKET - 1)) div AUDIO_SAMPLES_PER_PACKET"
  by (simp add: start_audio_def start_audio_loop_length)

lemma start_audio_index:
  assumes "i < length (start_audio audio)"
  shows "i * AUDIO_SAMPLES_PER_PACKET < length audio"
  using assms unfolding start_audio_length by (simp add: AUDIO_SAMPLES_PER_PACKET_def)

text \<open>
  C9. The packets of \<^verbatim>\<open>start_audio\<close>, in the order sent. The timestamp of packet \<open>i\<close> is
  the explicit \<^verbatim>\<open>Raw\<close> value \<open>i * AUDIO_SAMPLES_PER_PACKET\<close> (as a 32-bit number; it is
  that number itself for an array of at most \<open>2^32\<close> bytes), and its payload is the
  next (at most) \<open>AUDIO_SAMPLES_PER_PACKET\<close> samples of the array, at least one. A
  packet that is not the last carries exactly \<open>AUDIO_SAMPLES_PER_PACKET\<close> samples, and
  the timestamp of the packet after it is its own plus the number of samples it
  carries.
\<close>

theorem start_audio_timestamps:
  assumes "i < length (start_audio audio)"
  shows "rtp_ts (start_audio audio ! i) =
           SmolRTSP_RtpTimestamp_Raw (of_nat (i * AUDIO_SAMPLES_PER_PACKET)) \<and>
         rtp_payload (start_audio audio ! i) =
           take AUDIO_SAMPLES_PER_PACKET (drop (i * AUDIO_SAMPLES_PER_PACKET) audio) \<and>
         0 < length (rtp_payload (start_audio audio ! i)) \<and>
         length (rtp_payload (start_audio audio ! i)) \<le> AUDIO_SAMPLES_PER_PACKET \<and>
         (Suc i < length (start_audio audio) \<longrightarrow>
            length (rtp_payload (start_audio audio ! i)) = AUDIO_SAMPLES_PER_PACKET \<and>
            raw_ticks (rtp_ts (start_audio audio ! Suc i)) =
              raw_ticks (rtp_ts (start_audio audio ! i)) +
              of_nat (length (rtp_payload (start_audio audio ! i)))) \<and>
         (length audio \<le> 2 ^ 32 \<longrightarrow>
            unat (raw_ticks (rtp_ts (start_audio audio ! i))) = i * AUDIO_SAMPLES_PER_PACKET)"
proof -
  let ?n = AUDIO_SAMPLES_PER_PACKET
  from assms have nth: "start_audio audio ! i =
     \<lparr>rtp_ts = SmolRTSP_RtpTimestamp_Raw (of_nat (i * ?n)),
      rtp_marker = False, rtp_header = [],
      rtp_payload = take ?n (drop (i * ?n) audio)\<rparr>"
    using start_audio_loop_nth [of i audio 0] by (simp add: start_audio_def)
  from start_audio_index [OF assms] have lt: "i * ?n < length audio" .
  have len: "length (rtp_payload (start_audio audio ! i)) = min ?n (length audio - i * ?n)"
    by (simp add: nth min_def)
  have pos: "0 < length (rtp_payload (start_audio audio ! i))"
    using lt unfolding len by (simp add: AUDIO_SAMPLES_PER_PACKET_def)
  have le: "length (rtp_payload (start_audio audio ! i)) \<le> ?n"
    unfolding len by simp
  have step: "length (rtp_payload (start_audio audio ! i)) = ?n \<and>
            raw_ticks (rtp_ts (start_audio audio ! Suc i)) =
              raw_ticks (rtp_ts (start_audio audio ! i)) +
              of_nat (length (rtp_payload (start_audio audio ! i)))"
    if nxt: "Suc i < length (start_audio audio)"
  proof -
    from start_audio_index [OF nxt] have "Suc i * ?n < length audio" .
    then have full: "length (rtp_payload (start_audio audio ! i)) = ?n"
      unfolding len by (simp add: AUDIO_SAMPLES_PER_PACKET_def)
    from nxt have "start_audio audio ! Suc i =
       \<lparr>rtp_ts = SmolRTSP_RtpTimestamp_Raw (of_nat (Suc i * ?n)),
        rtp_marker = False, rtp_header = [],
        rtp_payload = take ?n (drop (Suc i * ?n) audio)\<rparr>"
      using start_audio_loop_nth [of "Suc i" audio 0] by (simp add: start_audio_def)
    then have "raw_ticks (rtp_ts (start_audio audio ! Suc i)) =
        raw_ticks (rtp_ts (start_audio audio ! i)) + of_nat ?n"
      by (simp add: nth)
    with full show ?thesis by simp
  qed
  have exact: "unat (raw_ticks (rtp_ts (start_audio audio ! i))) = i * ?n"
    if bound: "length audio \<le> 2 ^ 32"
  proof -
    from lt bound have "i * ?n < 2 ^ 32" by simp
    have "unat (of_nat (i * ?n) :: 32 word) = i * ?n mod 2 ^ LENGTH(32)"
      by (rule unat_of_nat)
    also from \<open>i * ?n < 2 ^ 32\<close> have "\<dots> = i * ?n" by simp
    finally show ?thesis by (simp add: nth del: of_nat_mult)
  qed
  from nth pos le step exact show ?thesis by simp
qed

lemma three_packets: "length (start_audio (replicate 330 (0::byte))) = 3"
  by (simp add: start_audio_length AUDIO_SAMPLES_PER_PACKET_def)

theorem start_audio_timestamps_witness:
  "(1::nat) < length (start_audio (replicate 330 (0::byte))) \<and>
   rtp_ts (start_audio (replicate 330 (0::byte)) ! 1) = SmolRTSP_RtpTimestamp_Raw 160 \<and>
   length (rtp_payload (start_audio (replicate 330 (0::byte)) ! 1)) = 160 \<and>
   raw_ticks (rtp_ts (start_audio (replicate 330 (0::byte)) ! Suc 1)) = 320 \<and>
   unat (raw_ticks (rtp_ts (start_audio (replicate 330 (0::byte)) ! 1))) = 160"
proof -
  have h: "(1::nat) < length (start_audio (replicate 330 (0::byte)))"
    by (simp add: three_packets)
  from start_audio_timestamps [OF h] h show ?thesis
    by (simp add: three_packets AUDIO_SAMPLES_PER_PACKET_def)
qed

section \<open>Video: units and timestamps\<close>

lemma split_start_code:
  assumes "code = [0, 0, 1] \<or> code = [0, 0, 0, (1::byte)]"
    and "code = w @ us" and "w \<noteq> []" and "us \<noteq> []"
  shows "\<not> prefix us code"
  using assms by (auto simp: append_eq_Cons_conv Cons_eq_append_conv)

lemma no_match:
  assumes code: "code = [0, 0, 1] \<or> code = [0, 0, 0, (1::byte)]"
    and w: "w \<noteq> []" and ns: "\<not> sublist code (v @ w)"
    and rest: "rest = [] \<or> prefix code rest"
  shows "\<not> prefix code (w @ rest)"
proof
  assume p: "prefix code (w @ rest)"
  have nw: "\<not> prefix code w"
  proof
    assume "prefix code w"
    then obtain s where "w = code @ s" by (auto simp: prefix_def)
    with sublist_appendI [of code v s] ns show False by simp
  qed
  with p obtain us where us: "code = w @ us" "prefix us rest"
    by (auto simp: prefix_append)
  with nw have ne: "us \<noteq> []" by auto
  with us rest have "prefix code rest" by auto
  with us have "prefix us code"
    by (metis prefix_length_prefix length_append le_add2)
  with split_start_code [OF code us(1) w ne] show False ..
qed

lemma sent_then_parts [simp]:
  "fst (sent_then s r) = s # fst r" "snd (sent_then s r) = snd r"
  by (cases r, simp)+

lemma send_nalu_unit:
  "\<exists>ts'. send_nalu dec ts (Some (h # p @ e)) e =
     Some (ts', \<lparr>nal_ts = SmolRTSP_RtpTimestamp_Raw ts',
                 nalu = \<lparr>header = NalHeader_parse dec h, payload = p\<rparr>\<rparr>)"
  by (simp add: send_nalu_def Let_def)

lemma send_nalu_stamp:
  assumes "send_nalu dec ts ns e = Some (ts', s)"
  shows "ts' = ts + (if is_AUD dec s then of_nat (VIDEO_SAMPLE_RATE div VIDEO_FPS) else 0) \<and>
         nal_ts s = SmolRTSP_RtpTimestamp_Raw ts'"
  using assms
  by (auto simp: send_nalu_def Let_def is_AUD_def split: option.splits list.splits if_splits)

lemma video_loop_skip:
  assumes code: "code = [0, 0, 1] \<or> code = [0, 0, 0, (1::byte)]"
    and T: "\<forall>data. t data = (if prefix code data then length code else 0)"
  shows "\<not> sublist code (v @ w) \<Longrightarrow> rest = [] \<or> prefix code rest \<Longrightarrow>
         video_loop dec t (w @ rest) ns ts = video_loop dec t rest ns ts"
proof (induction w arbitrary: v)
  case Nil
  then show ?case by simp
next
  case (Cons b w)
  from no_match [OF code _ Cons.prems(1) Cons.prems(2)]
  have "\<not> prefix code ((b # w) @ rest)" by simp
  with T have z: "t (b # w @ rest) = 0" by simp
  have "video_loop dec t ((b # w) @ rest) ns ts = video_loop dec t (w @ rest) ns ts"
    by (subst video_loop.simps) (simp add: z Let_def)
  also have "\<dots> = video_loop dec t rest ns ts"
    using Cons.IH [of "v @ [b]"] Cons.prems by simp
  finally show ?case .
qed

lemma annexb_Cons: "annexb code ((h, p) # us) = code @ h # p @ annexb code us"
  by (simp add: annexb_def)

lemma annexb_Nil: "annexb code [] = []"
  by (simp add: annexb_def)

text \<open>
  From the first byte of a unit on, with \<^verbatim>\<open>nalu_start\<close> at that byte: the units sent are
  this unit and the ones after it, each with its header decoded and its payload.
\<close>

lemma video_loop_units:
  assumes code: "code = [0, 0, 1] \<or> code = [0, 0, 0, (1::byte)]"
    and T: "\<forall>data. t data = (if prefix code data then length code else 0)"
  shows "\<forall>(h, p) \<in> set ((h0, p0) # us). \<not> sublist code (h # p) \<Longrightarrow>
     map nalu (fst (video_loop dec t (h0 # p0 @ annexb code us)
        (Some (h0 # p0 @ annexb code us)) ts)) =
       map (\<lambda>(h, p). \<lparr>header = NalHeader_parse dec h, payload = p\<rparr>) ((h0, p0) # us) \<and>
     snd (video_loop dec t (h0 # p0 @ annexb code us)
        (Some (h0 # p0 @ annexb code us)) ts) = Completed"
proof (induction us arbitrary: h0 p0 ts)
  case Nil
  then have "\<not> sublist code ([] @ h0 # p0)" by simp
  from video_loop_skip [OF code T this, of "[]"]
  have skip: "video_loop dec t (h0 # p0) (Some (h0 # p0)) ts =
      video_loop dec t [] (Some (h0 # p0)) ts"
    by simp
  obtain ts' where send: "send_nalu dec ts (Some (h0 # p0)) [] =
     Some (ts', \<lparr>nal_ts = SmolRTSP_RtpTimestamp_Raw ts',
                 nalu = \<lparr>header = NalHeader_parse dec h0, payload = p0\<rparr>\<rparr>)"
    using send_nalu_unit [of dec ts h0 p0 "[]"] by auto
  have "video_loop dec t [] (Some (h0 # p0)) ts =
      ([\<lparr>nal_ts = SmolRTSP_RtpTimestamp_Raw ts',
         nalu = \<lparr>header = NalHeader_parse dec h0, payload = p0\<rparr>\<rparr>], Completed)"
    by (subst video_loop.simps) (simp add: send)
  with skip show ?case
    by (simp add: annexb_Nil)
next
  case (Cons u us)
  obtain h1 p1 where u: "u = (h1, p1)" by (cases u)
  let ?V = "annexb code (u # us)"
  have V: "?V = code @ h1 # p1 @ annexb code us" by (simp add: u annexb_Cons)
  from Cons.prems have "\<not> sublist code ([] @ h0 # p0)" by simp
  from video_loop_skip [OF code T this, of ?V] V
  have skip: "video_loop dec t (h0 # p0 @ ?V) (Some (h0 # p0 @ ?V)) ts =
      video_loop dec t ?V (Some (h0 # p0 @ ?V)) ts"
    by simp
  obtain ts' where send: "send_nalu dec ts (Some (h0 # p0 @ ?V)) ?V =
     Some (ts', \<lparr>nal_ts = SmolRTSP_RtpTimestamp_Raw ts',
                 nalu = \<lparr>header = NalHeader_parse dec h0, payload = p0\<rparr>\<rparr>)"
    using send_nalu_unit [of dec ts h0 p0 ?V] by auto
  from code have ne: "code \<noteq> []" by auto
  from T V have tV: "t ?V = length code" by simp
  from V have dropV: "drop (length code) ?V = h1 # p1 @ annexb code us" by simp
  from V ne have Vne: "?V \<noteq> []" by simp
  from V have long: "\<not> length ?V < length code" by simp
  have "video_loop dec t ?V (Some (h0 # p0 @ ?V)) ts =
      sent_then \<lparr>nal_ts = SmolRTSP_RtpTimestamp_Raw ts',
                 nalu = \<lparr>header = NalHeader_parse dec h0, payload = p0\<rparr>\<rparr>
        (video_loop dec t (h1 # p1 @ annexb code us) (Some (h1 # p1 @ annexb code us)) ts')"
    using ne by (subst video_loop.simps) (simp add: Vne tV send dropV long Let_def)
  moreover from Cons.prems u
  have "\<forall>(h, p) \<in> set ((h1, p1) # us). \<not> sublist code (h # p)" by simp
  note Cons.IH [OF this, of ts']
  ultimately show ?case
    using skip by (simp add: u)
qed

text \<open>
  C7. An Annex-B stream of \<open>K\<close> units that all use one start code (3 or 4 bytes wide),
  each unit a header byte and a payload in which the start code does not occur. With a
  tester for that start code, \<^verbatim>\<open>start_video\<close> sends exactly \<open>K\<close> units, in order; the
  header of each is decoded from the first byte after the start code, and its payload
  is the bytes after that byte up to the next start code, or up to the end of the
  stream for the last unit. With at least one unit the run completes.
\<close>

theorem annexb_units_round_trip:
  assumes code: "code = [0, 0, 1] \<or> code = [0, 0, 0, (1::byte)]"
    and T: "\<forall>data. t data = (if prefix code data then length code else 0)"
    and det: "determine (annexb code units) = Some t"
    and units: "\<forall>(h, p) \<in> set units. \<not> sublist code (h # p)"
  shows "map nalu (fst (start_video dec determine (annexb code units))) =
           map (\<lambda>(h, p). \<lparr>header = NalHeader_parse dec h, payload = p\<rparr>) units \<and>
         length (fst (start_video dec determine (annexb code units))) = length units \<and>
         (units \<noteq> [] \<longrightarrow> snd (start_video dec determine (annexb code units)) = Completed)"
proof (cases units)
  case Nil
  have "video_loop dec t [] None 0 = ([], Faulted)"
    by (subst video_loop.simps) (simp add: send_nalu_def)
  with det Nil show ?thesis
    by (simp add: start_video_def annexb_Nil)
next
  case (Cons u us)
  obtain h0 p0 where u: "u = (h0, p0)" by (cases u)
  let ?V = "annexb code units"
  have V: "?V = code @ h0 # p0 @ annexb code us" by (simp add: Cons u annexb_Cons)
  from code have ne: "code \<noteq> []" by auto
  from T V have tV: "t ?V = length code" by simp
  from V have dropV: "drop (length code) ?V = h0 # p0 @ annexb code us" by simp
  from V ne have Vne: "?V \<noteq> []" by simp
  from V have long: "\<not> length ?V < length code" by simp
  have first: "video_loop dec t ?V None 0 =
      video_loop dec t (h0 # p0 @ annexb code us) (Some (h0 # p0 @ annexb code us)) 0"
    using ne by (subst video_loop.simps) (simp add: Vne tV dropV long Let_def)
  from units Cons u have "\<forall>(h, p) \<in> set ((h0, p0) # us). \<not> sublist code (h # p)" by simp
  from video_loop_units [OF code T this, of dec 0] first det
  have "map nalu (fst (start_video dec determine ?V)) =
           map (\<lambda>(h, p). \<lparr>header = NalHeader_parse dec h, payload = p\<rparr>) units \<and>
        snd (start_video dec determine ?V) = Completed"
    by (simp add: start_video_def Cons u)
  moreover from this have "length (fst (start_video dec determine ?V)) = length units"
    by (metis length_map)
  ultimately show ?thesis by simp
qed

lemma determine_four_units:
  "smolrtsp_determine_start_code (annexb [0, 0, 1] four_units) = Some (test_start_code [0, 0, 1])"
  by (simp add: annexb_def four_units_def test_start_code_def start_code_3b_def)

theorem annexb_units_round_trip_witness:
  "smolrtsp_determine_start_code (annexb [0, 0, 1] four_units) = Some (test_start_code [0, 0, 1]) \<and>
   map nalu (fst (start_video h264_decoding smolrtsp_determine_start_code
      (annexb [0, 0, 1] four_units))) =
     [\<lparr>header = SmolRTSP_H264NalHeader_parse 0x09, payload = [0xF0]\<rparr>,
      \<lparr>header = SmolRTSP_H264NalHeader_parse 0x65, payload = [0x88, 0x84]\<rparr>,
      \<lparr>header = SmolRTSP_H264NalHeader_parse 0x09, payload = [0xF0]\<rparr>,
      \<lparr>header = SmolRTSP_H264NalHeader_parse 0x41, payload = [0x9A]\<rparr>] \<and>
   snd (start_video h264_decoding smolrtsp_determine_start_code
      (annexb [0, 0, 1] four_units)) = Completed"
proof -
  have T: "\<forall>data. test_start_code [0, 0, 1] data =
      (if prefix [0, 0, 1] data then length [0, 0, (1::byte)] else 0)"
    by (simp add: test_start_code_def)
  have U: "\<forall>(h, p) \<in> set four_units. \<not> sublist [0, 0, 1] (h # p)"
    by (simp add: four_units_def sublist_Cons_right prefix_Cons)
  have C: "[0, 0, 1] = [0, 0, (1::byte)] \<or> [0, 0, 1] = [0, 0, 0, (1::byte)]"
    by simp
  from annexb_units_round_trip
    [where code = "[0, 0, 1]" and t = "test_start_code [0, 0, 1]"
       and determine = smolrtsp_determine_start_code and units = four_units
       and dec = h264_decoding, OF C T determine_four_units U]
    determine_four_units
  show ?thesis
    by (simp add: four_units_def h264_decoding_def)
qed

text \<open>Whatever the tester and the stream, the units the loop sends are stamped.\<close>

lemma stamped_one:
  "send_nalu dec ts ns e = Some (ts', s) \<Longrightarrow> stamped dec ts' rest \<Longrightarrow> stamped dec ts (s # rest)"
  using send_nalu_stamp [of dec ts ns e ts' s] by (simp add: Let_def)

lemma video_loop_stamped: "stamped dec ts (fst (video_loop dec t video ns ts))"
proof (induction dec t video ns ts rule: video_loop.induct)
  case (1 dec t video ns ts)
  note unfold = video_loop.simps [of dec t video ns ts]
  show ?case
  proof (cases "video = []")
    case True
    show ?thesis
    proof (cases "send_nalu dec ts ns video")
      case None
      with True show ?thesis unfolding unfold by simp
    next
      case (Some r)
      obtain ts' s where r: "r = (ts', s)" by (cases r)
      from stamped_one [OF Some [unfolded r], of "[]"] True Some r show ?thesis
        unfolding unfold by simp
    qed
  next
    case False
    show ?thesis
    proof (cases "0 = t video")
      case True
      from "1.IH"(1) [OF False refl True] False True show ?thesis
        unfolding unfold by (simp add: Let_def)
    next
      case nz: False
      show ?thesis
      proof (cases "length video < t video")
        case short: True
        show ?thesis
        proof (cases "send_nalu dec ts ns video")
          case None
          with False nz short show ?thesis
            unfolding unfold by (simp add: Let_def)
        next
          case (Some r)
          obtain ts' s where r: "r = (ts', s)" by (cases r)
          from stamped_one [OF Some [unfolded r], of "[]"] False nz short Some r show ?thesis
            unfolding unfold by (simp add: Let_def)
        qed
      next
        case long: False
        show ?thesis
        proof (cases "ns \<noteq> None")
          case nonnull: True
          show ?thesis
          proof (cases "send_nalu dec ts ns video")
            case None
            with False nz nonnull show ?thesis
              unfolding unfold by (simp add: Let_def)
          next
            case (Some r)
            obtain ts' s where r: "r = (ts', s)" by (cases r)
            from "1.IH"(2) [OF False refl nz nonnull Some r [symmetric] long]
            have "stamped dec ts'
              (fst (video_loop dec t (drop (t video) video) (Some (drop (t video) video)) ts'))" .
            from stamped_one [OF Some [unfolded r] this] False nz nonnull long Some r
            show ?thesis
              unfolding unfold by (simp add: Let_def)
          qed
        next
          case null: False
          from "1.IH"(3) [OF False refl nz null long] False nz null long show ?thesis
            unfolding unfold by (simp add: Let_def)
        qed
      qed
    qed
  qed
qed

lemma stamped_nth:
  "stamped dec ts sent \<Longrightarrow> i < length sent \<Longrightarrow>
   raw_ticks (nal_ts (sent ! i)) =
     ts + of_nat (length (filter (is_AUD dec) (take (Suc i) sent))) *
          of_nat (VIDEO_SAMPLE_RATE div VIDEO_FPS)"
proof (induction sent arbitrary: ts i)
  case Nil
  then show ?case by simp
next
  case (Cons s sent)
  show ?case
  proof (cases i)
    case 0
    with Cons.prems show ?thesis by (simp add: Let_def)
  next
    case (Suc j)
    let ?ts = "ts + (if is_AUD dec s then of_nat (VIDEO_SAMPLE_RATE div VIDEO_FPS) else 0)"
    from Cons.prems have st: "stamped dec ?ts sent" by (simp add: Let_def)
    from Cons.prems Suc have "j < length sent" by simp
    from Cons.IH [OF st this] Suc show ?thesis
      by (simp add: algebra_simps)
  qed
qed

lemma start_video_stamped: "stamped dec 0 (fst (start_video dec determine video))"
  by (cases "determine video") (simp_all add: start_video_def video_loop_stamped)

lemma video_step: "VIDEO_SAMPLE_RATE div VIDEO_FPS = 3600"
  by (simp add: VIDEO_SAMPLE_RATE_def VIDEO_FPS_def)

text \<open>
  C6. \<^verbatim>\<open>send_nalu\<close> decodes the header from the first byte of the unit; it adds
  \<^verbatim>\<open>VIDEO_SAMPLE_RATE / VIDEO_FPS\<close> (3600) to the running timestamp, before sending, when
  the unit type is the access unit delimiter's, and leaves it unchanged otherwise; the
  unit is sent with the running timestamp. So, in 32-bit arithmetic, the timestamp of
  the \<open>i\<close>-th unit that \<^verbatim>\<open>start_video\<close> sends is 3600 times the number of delimiters
  among the units sent up to and including it: it is the timestamp of the unit before
  (0 before the first) plus 3600 if the unit is a delimiter and plus nothing if not.
\<close>

theorem video_timestamp_steps_at_AUD:
  assumes "i < length (fst (start_video dec determine video))"
  shows "raw_ticks (nal_ts (fst (start_video dec determine video) ! i)) =
           of_nat (length (filter (is_AUD dec)
             (take (Suc i) (fst (start_video dec determine video))))) *
           of_nat (VIDEO_SAMPLE_RATE div VIDEO_FPS) \<and>
         raw_ticks (nal_ts (fst (start_video dec determine video) ! i)) =
           (if i = 0 then 0
            else raw_ticks (nal_ts (fst (start_video dec determine video) ! (i - 1)))) +
           (if is_AUD dec (fst (start_video dec determine video) ! i)
            then of_nat (VIDEO_SAMPLE_RATE div VIDEO_FPS) else 0) \<and>
         VIDEO_SAMPLE_RATE div VIDEO_FPS = 3600 \<and>
         (send_nalu dec ts (Some (first # after)) nalu_end = Some (ts', s) \<longrightarrow>
            header (nalu s) = NalHeader_parse dec first \<and>
            ts' = ts + (if NalHeader_unit_type dec (NalHeader_parse dec first) = NAL_UNIT_AUD dec
                        then of_nat (VIDEO_SAMPLE_RATE div VIDEO_FPS) else 0) \<and>
            nal_ts s = SmolRTSP_RtpTimestamp_Raw ts')"
proof -
  let ?sent = "fst (start_video dec determine video)"
  let ?step = "of_nat (VIDEO_SAMPLE_RATE div VIDEO_FPS) :: uint32_t"
  let ?count = "\<lambda>k. length (filter (is_AUD dec) (take k ?sent))"
  have st: "stamped dec 0 ?sent" by (rule start_video_stamped)
  from stamped_nth [OF st assms]
  have closed: "raw_ticks (nal_ts (?sent ! i)) = of_nat (?count (Suc i)) * ?step" by simp
  have cnt: "?count (Suc i) = ?count i + (if is_AUD dec (?sent ! i) then 1 else 0)"
    using assms by (simp add: take_Suc_conv_app_nth)
  have prev: "(if i = 0 then 0 else raw_ticks (nal_ts (?sent ! (i - 1)))) = of_nat (?count i) * ?step"
  proof (cases i)
    case 0
    then show ?thesis by simp
  next
    case (Suc j)
    with assms have "j < length ?sent" by simp
    from stamped_nth [OF st this] Suc show ?thesis by simp
  qed
  have step: "raw_ticks (nal_ts (?sent ! i)) =
      (if i = 0 then 0 else raw_ticks (nal_ts (?sent ! (i - 1)))) +
      (if is_AUD dec (?sent ! i) then ?step else 0)"
    unfolding prev closed cnt by (simp add: algebra_simps)
  have send: "header (nalu s) = NalHeader_parse dec first \<and>
      ts' = ts + (if NalHeader_unit_type dec (NalHeader_parse dec first) = NAL_UNIT_AUD dec
                  then ?step else 0) \<and>
      nal_ts s = SmolRTSP_RtpTimestamp_Raw ts'"
    if "send_nalu dec ts (Some (first # after)) nalu_end = Some (ts', s)"
    using that by (auto simp: send_nalu_def Let_def split: if_splits)
  from closed step video_step send show ?thesis by (intro conjI impI) simp_all
qed

text \<open>The loop on the empty slice and on a slice with a first byte, for running it.\<close>

lemma video_loop_Nil:
  "video_loop dec t [] ns ts =
     (case send_nalu dec ts ns [] of
        None \<Rightarrow> ([], Faulted)
      | Some (ts', s) \<Rightarrow> ([s], Completed))"
  by (subst video_loop.simps) simp

lemma video_loop_Cons:
  "video_loop dec t (b # rest) ns ts =
     (if t (b # rest) = 0 then video_loop dec t rest ns ts
      else if ns \<noteq> None then
        (case send_nalu dec ts ns (b # rest) of
           None \<Rightarrow> ([], Faulted)
         | Some (ts', s) \<Rightarrow>
             if length (b # rest) < t (b # rest) then ([s], Faulted)
             else sent_then s
               (video_loop dec t (drop (t (b # rest)) (b # rest))
                  (Some (drop (t (b # rest)) (b # rest))) ts'))
      else if length (b # rest) < t (b # rest) then ([], Faulted)
      else video_loop dec t (drop (t (b # rest)) (b # rest))
             (Some (drop (t (b # rest)) (b # rest))) ts)"
  by (subst video_loop.simps) (simp add: Let_def)

lemmas run_video =
  video_loop_Nil video_loop_Cons send_nalu_def test_start_code_def Let_def
  h264_decoding_def SmolRTSP_H264NalHeader_parse_def VIDEO_SAMPLE_RATE_def VIDEO_FPS_def

lemma run_four_units:
  "start_video h264_decoding smolrtsp_determine_start_code (annexb [0, 0, 1] four_units) =
   ([\<lparr>nal_ts = SmolRTSP_RtpTimestamp_Raw 3600,
      nalu = \<lparr>header = SmolRTSP_H264NalHeader_parse 0x09, payload = [0xF0]\<rparr>\<rparr>,
     \<lparr>nal_ts = SmolRTSP_RtpTimestamp_Raw 3600,
      nalu = \<lparr>header = SmolRTSP_H264NalHeader_parse 0x65, payload = [0x88, 0x84]\<rparr>\<rparr>,
     \<lparr>nal_ts = SmolRTSP_RtpTimestamp_Raw 7200,
      nalu = \<lparr>header = SmolRTSP_H264NalHeader_parse 0x09, payload = [0xF0]\<rparr>\<rparr>,
     \<lparr>nal_ts = SmolRTSP_RtpTimestamp_Raw 7200,
      nalu = \<lparr>header = SmolRTSP_H264NalHeader_parse 0x41, payload = [0x9A]\<rparr>\<rparr>],
    Completed)"
  unfolding start_video_def determine_four_units
  by (simp add: annexb_def four_units_def run_video)

theorem video_timestamp_steps_at_AUD_witness:
  "(2::nat) < length (fst (start_video h264_decoding smolrtsp_determine_start_code
      (annexb [0, 0, 1] four_units))) \<and>
   is_AUD h264_decoding (fst (start_video h264_decoding smolrtsp_determine_start_code
      (annexb [0, 0, 1] four_units)) ! 2) \<and>
   raw_ticks (nal_ts (fst (start_video h264_decoding smolrtsp_determine_start_code
      (annexb [0, 0, 1] four_units)) ! 1)) = 3600 \<and>
   raw_ticks (nal_ts (fst (start_video h264_decoding smolrtsp_determine_start_code
      (annexb [0, 0, 1] four_units)) ! 2)) = 3600 + 3600"
proof -
  have h: "(2::nat) < length (fst (start_video h264_decoding smolrtsp_determine_start_code
      (annexb [0, 0, 1] four_units)))"
    by (simp add: run_four_units)
  have a: "is_AUD h264_decoding (fst (start_video h264_decoding smolrtsp_determine_start_code
      (annexb [0, 0, 1] four_units)) ! 2)"
    unfolding run_four_units
    by (simp add: is_AUD_def h264_decoding_def SmolRTSP_H264NalHeader_parse_def)
  have b: "raw_ticks (nal_ts (fst (start_video h264_decoding smolrtsp_determine_start_code
      (annexb [0, 0, 1] four_units)) ! 1)) = 3600"
    unfolding run_four_units by simp
  from video_timestamp_steps_at_AUD [OF h, THEN conjunct2, THEN conjunct1]
  have "raw_ticks (nal_ts (fst (start_video h264_decoding smolrtsp_determine_start_code
      (annexb [0, 0, 1] four_units)) ! 2)) =
    raw_ticks (nal_ts (fst (start_video h264_decoding smolrtsp_determine_start_code
      (annexb [0, 0, 1] four_units)) ! 1)) +
    (if is_AUD h264_decoding (fst (start_video h264_decoding smolrtsp_determine_start_code
      (annexb [0, 0, 1] four_units)) ! 2) then of_nat (VIDEO_SAMPLE_RATE div VIDEO_FPS) else 0)"
    by simp
  with a b have "raw_ticks (nal_ts (fst (start_video h264_decoding smolrtsp_determine_start_code
      (annexb [0, 0, 1] four_units)) ! 2)) = 3600 + 3600"
    by (simp add: video_step)
  with h a b show ?thesis by simp
qed








end
